theory Spec2Isabelle
  imports Main
begin

section \<open>JavaScript strings\<close>

text \<open>
  A JavaScript string is a sequence of UTF-16 code units. The code under study looks at
  strings one code unit at a time (\<^verbatim>\<open>indexOf\<close>, \<^verbatim>\<open>substring\<close>, regular expressions
  without the \<^verbatim>\<open>u\<close> flag), so a string is modelled as the list of its code units, each
  a natural number. \<open>str\<close> turns an ASCII literal into such a list; code units outside
  ASCII are written as numbers (\<open>8226\<close> is the bullet U+2022, \<open>176\<close> the degree sign).
\<close>

type_synonym jsstring = "nat list"

definition str :: "string \<Rightarrow> jsstring" where
  "str cs = map of_char cs"

text \<open>Line terminators and white space of ECMAScript (the set of \<^verbatim>\<open>\s\<close> and of \<^verbatim>\<open>trim\<close>).\<close>

definition isLineTerminator :: "nat \<Rightarrow> bool" where
  "isLineTerminator c = (c = 10 \<or> c = 13 \<or> c = 8232 \<or> c = 8233)"

definition isWhiteSpace :: "nat \<Rightarrow> bool" where
  "isWhiteSpace c = (c = 9 \<or> c = 10 \<or> c = 11 \<or> c = 12 \<or> c = 13 \<or> c = 32 \<or> c = 160
     \<or> c = 5760 \<or> (8192 \<le> c \<and> c \<le> 8202) \<or> c = 8232 \<or> c = 8233 \<or> c = 8239
     \<or> c = 8287 \<or> c = 12288 \<or> c = 65279)"

definition trim :: "jsstring \<Rightarrow> jsstring" where
  "trim s = rev (dropWhile isWhiteSpace (rev (dropWhile isWhiteSpace s)))"

definition startsWith :: "jsstring \<Rightarrow> jsstring \<Rightarrow> bool" where
  "startsWith s p = (take (length p) s = p)"

definition endsWith :: "jsstring \<Rightarrow> jsstring \<Rightarrow> bool" where
  "endsWith s p = (length p \<le> length s \<and> drop (length s - length p) s = p)"

text \<open>\<^verbatim>\<open>indexOf\<close> and \<^verbatim>\<open>lastIndexOf\<close> return \<open>-1\<close> when the pattern does not occur.\<close>

fun indexOfFrom :: "jsstring \<Rightarrow> jsstring \<Rightarrow> nat \<Rightarrow> int" where
  "indexOfFrom [] p i = (if p = [] then int i else - 1)"
| "indexOfFrom (x # xs) p i =
     (if startsWith (x # xs) p then int i else indexOfFrom xs p (Suc i))"

definition indexOf :: "jsstring \<Rightarrow> jsstring \<Rightarrow> int" where
  "indexOf s p = indexOfFrom s p 0"

fun lastIndexOfFrom :: "jsstring \<Rightarrow> jsstring \<Rightarrow> nat \<Rightarrow> int \<Rightarrow> int" where
  "lastIndexOfFrom [] p i found = (if p = [] then int i else found)"
| "lastIndexOfFrom (x # xs) p i found =
     lastIndexOfFrom xs p (Suc i) (if startsWith (x # xs) p then int i else found)"

definition lastIndexOf :: "jsstring \<Rightarrow> jsstring \<Rightarrow> int" where
  "lastIndexOf s p = lastIndexOfFrom s p 0 (- 1)"

definition jsincludes :: "jsstring \<Rightarrow> jsstring \<Rightarrow> bool" where
  "jsincludes s p = (indexOf s p \<noteq> - 1)"

text \<open>
  \<^verbatim>\<open>substring(a, b)\<close> clamps both indices to the string and swaps them when \<open>a > b\<close>;
  \<^verbatim>\<open>slice(a, b)\<close> counts a negative index from the end and yields the empty string when
  the start is not before the end.
\<close>

definition clampIndex :: "int \<Rightarrow> nat \<Rightarrow> nat" where
  "clampIndex k n = (if k < 0 then 0 else min (nat k) n)"

definition substring :: "jsstring \<Rightarrow> int \<Rightarrow> int \<Rightarrow> jsstring" where
  "substring s a b =
     (let x = clampIndex a (length s); y = clampIndex b (length s)
      in take (max x y - min x y) (drop (min x y) s))"

definition substringFrom :: "jsstring \<Rightarrow> int \<Rightarrow> jsstring" where
  "substringFrom s a = substring s a (int (length s))"

definition relIndex :: "int \<Rightarrow> nat \<Rightarrow> nat" where
  "relIndex k n = (if k < 0 then nat (max (int n + k) 0) else min (nat k) n)"

definition slice :: "jsstring \<Rightarrow> int \<Rightarrow> int \<Rightarrow> jsstring" where
  "slice s a b =
     (let x = relIndex a (length s); y = relIndex b (length s) in take (y - x) (drop x s))"

text \<open>
  \<^verbatim>\<open>toLowerCase\<close>: the letters A to Z are folded. Code units outside ASCII are kept as
  they are. Of these only U+212A (to k) and U+0130 (to i followed by U+0307) have an ASCII
  letter in their lower-case form, and neither can complete an occurrence of "find a
  facility", the only text searched for in a lower-cased string: the test is the same.
\<close>

definition toLowerCase :: "jsstring \<Rightarrow> jsstring" where
  "toLowerCase s = map (\<lambda>c. if 65 \<le> c \<and> c \<le> 90 then c + 32 else c) s"

section \<open>Regular expressions\<close>

text \<open>
  The regular expressions of the source use character classes, greedy and lazy
  repetition of a single class, capture groups, one alternation, positive lookahead and
  the start anchor. A pattern is the list of its items in sequence. \<open>rmatch\<close> is the
  backtracking matcher of ECMAScript on this fragment: a greedy repetition takes a
  character first and gives it back on failure, a lazy one tries the rest of the pattern
  first, an alternation tries its left branch first, a lookahead consumes nothing and
  keeps the captures it made. The matcher works on the rest of the input and the index
  \<open>i\<close> of its first code unit.
\<close>

datatype cclass = Lit nat | Digit | Space | Dot | DotAll

fun cmatch :: "cclass \<Rightarrow> nat \<Rightarrow> bool" where
  "cmatch (Lit a) c = (c = a)"
| "cmatch Digit c = (48 \<le> c \<and> c \<le> 57)"
| "cmatch Space c = isWhiteSpace c"
| "cmatch Dot c = (\<not> isLineTerminator c)"
| "cmatch DotAll c = True"

datatype rx = One cclass | Star cclass | Plus cclass | Lazy cclass
  | Open nat | Close nat | Look "rx list" | Alt "rx list" "rx list" | Bos

definition lits :: "string \<Rightarrow> rx list" where
  "lits cs = map (\<lambda>c. One (Lit (of_char c))) cs"

type_synonym captures = "(nat \<times> nat \<times> jsstring) list \<times> (nat \<times> jsstring) list"

function (sequential) rmatch ::
  "rx list \<Rightarrow> nat \<Rightarrow> jsstring \<Rightarrow> captures \<Rightarrow> (nat \<times> jsstring \<times> captures) option" where
  "rmatch [] i s st = Some (i, s, st)"
| "rmatch (One c # rs) i [] st = None"
| "rmatch (One c # rs) i (x # xs) st = (if cmatch c x then rmatch rs (Suc i) xs st else None)"
| "rmatch (Plus c # rs) i [] st = None"
| "rmatch (Plus c # rs) i (x # xs) st =
     (if cmatch c x then rmatch (Star c # rs) (Suc i) xs st else None)"
| "rmatch (Star c # rs) i [] st = rmatch rs i [] st"
| "rmatch (Star c # rs) i (x # xs) st =
     (if cmatch c x
      then (case rmatch (Star c # rs) (Suc i) xs st of
              Some r \<Rightarrow> Some r
            | None \<Rightarrow> rmatch rs i (x # xs) st)
      else rmatch rs i (x # xs) st)"
| "rmatch (Lazy c # rs) i [] st = rmatch rs i [] st"
| "rmatch (Lazy c # rs) i (x # xs) st =
     (case rmatch rs i (x # xs) st of
        Some r \<Rightarrow> Some r
      | None \<Rightarrow> if cmatch c x then rmatch (Lazy c # rs) (Suc i) xs st else None)"
| "rmatch (Open n # rs) i s (os, cs) = rmatch rs i s ((n, i, s) # os, cs)"
| "rmatch (Close n # rs) i s (os, cs) =
     (case map_of os n of
        None \<Rightarrow> None
      | Some (i0, s0) \<Rightarrow> rmatch rs i s (os, (n, take (i - i0) s0) # cs))"
| "rmatch (Look a # rs) i s st =
     (case rmatch a i s st of None \<Rightarrow> None | Some (_, _, st') \<Rightarrow> rmatch rs i s st')"
| "rmatch (Alt a b # rs) i s st =
     (case rmatch (a @ rs) i s st of Some r \<Rightarrow> Some r | None \<Rightarrow> rmatch (b @ rs) i s st)"
| "rmatch (Bos # rs) i s st = (if i = 0 then rmatch rs i s st else None)"
  by pat_completeness auto
termination
  by (relation "inv_image (less_than <*lex*> less_than)
        (\<lambda>(rs, i, s, st). (size_list size rs, length s))")
     (auto simp: size_list_append)

text \<open>
  The result of \<^verbatim>\<open>exec\<close>: the index of the match, the matched text and the captures. A
  group that took no part in the match is \<^verbatim>\<open>undefined\<close>, here \<open>None\<close>.
\<close>

record rxmatch =
  index :: nat
  matched :: jsstring
  caps :: "(nat \<times> jsstring) list"

definition group :: "rxmatch \<Rightarrow> nat \<Rightarrow> jsstring option" where
  "group r n = map_of (caps r) n"

fun exec :: "rx list \<Rightarrow> nat \<Rightarrow> jsstring \<Rightarrow> rxmatch option" where
  "exec rs i s =
     (case rmatch rs i s ([], []) of
        Some (e, rest, st) \<Rightarrow> Some \<lparr>index = i, matched = take (e - i) s, caps = snd st\<rparr>
      | None \<Rightarrow> (case s of [] \<Rightarrow> None | x # xs \<Rightarrow> exec rs (Suc i) xs))"

text \<open>\<^verbatim>\<open>text.match(re)\<close> for a regular expression without the \<^verbatim>\<open>g\<close> flag.\<close>

definition jsmatch :: "jsstring \<Rightarrow> rx list \<Rightarrow> rxmatch option" where
  "jsmatch s rs = exec rs 0 s"

text \<open>The capture groups of a pattern, in the order of their opening parentheses.\<close>

fun rxgroups :: "rx \<Rightarrow> nat list" where
  "rxgroups (Open n) = [n]"
| "rxgroups (Look a) = concat (map rxgroups a)"
| "rxgroups (Alt a b) = concat (map rxgroups a) @ concat (map rxgroups b)"
| "rxgroups _ = []"

lemma rmatch_end:
  "rmatch rs i s st = Some (e, rest, st') \<Longrightarrow>
     e = i + (length s - length rest) \<and> length rest \<le> length s"
proof (induction rs i s st arbitrary: e rest st' rule: rmatch.induct)
  case (7 c rs i x xs st)
  then show ?case by (auto split: if_splits option.splits)
next
  case (9 c rs i x xs st)
  then show ?case by (auto split: if_splits option.splits)
next
  case (11 n rs i s os cs)
  from "11.prems" obtain i0 s0 where a: "map_of os n = Some (i0, s0)"
    and b: "rmatch rs i s (os, (n, take (i - i0) s0) # cs) = Some (e, rest, st')"
    by (auto split: option.splits)
  from "11.IH" [OF a refl b] show ?case .
next
  case (12 a rs i s st)
  from "12.prems" obtain e1 r1 st1 where a: "rmatch a i s st = Some (e1, r1, st1)"
    and b: "rmatch rs i s st1 = Some (e, rest, st')"
    by (auto split: option.splits)
  from "12.IH"(2) [OF a refl refl b] show ?case .
next
  case (13 a b rs i s st)
  then show ?case by (auto split: option.splits)
qed (auto split: if_splits option.splits)

text \<open>
  \<^verbatim>\<open>text.split(re)\<close>, as ECMAScript defines it: \<open>p\<close> is the start of the piece being
  collected, \<open>q\<close> the index where the pattern is tried next, \<open>cur\<close> the piece from \<open>p\<close>
  to \<open>q\<close> (reversed). A match that is empty at \<open>p\<close> is skipped; after any other match
  the piece and then every capture are appended to the result.
\<close>

function splitLoop ::
  "rx list \<Rightarrow> nat \<Rightarrow> nat \<Rightarrow> jsstring \<Rightarrow> jsstring \<Rightarrow> jsstring option list" where
  "splitLoop rs p q [] cur = [Some (rev cur)]"
| "splitLoop rs p q (x # xs) cur =
     (case rmatch rs q (x # xs) ([], []) of
        None \<Rightarrow> splitLoop rs p (Suc q) xs (x # cur)
      | Some (e, rest, st) \<Rightarrow>
          if e = p then splitLoop rs p (Suc q) xs (x # cur)
          else Some (rev cur) # map (map_of (snd st)) (concat (map rxgroups rs))
               @ splitLoop rs e e rest [])"
  by pat_completeness auto
termination
proof (relation "inv_image (less_than <*lex*> less_than)
        (\<lambda>(rs, p, q, s, cur). (length s, if p = q then 0 else (1::nat)))", goal_cases)
  case 1
  show ?case by auto
next
  case (2 rs p q x xs cur)
  then show ?case by simp
next
  case (3 rs p q x xs cur a e b rest st)
  then show ?case by simp
next
  case (4 rs p q x xs cur a e b rest st)
  from 4(1) 4(2) 4(3) have m: "rmatch rs q (x # xs) ([], []) = Some (e, rest, st)"
    by simp
  from rmatch_end [OF m] 4(4) show ?case
    by (cases "length rest = length (x # xs)") auto
qed

definition split :: "jsstring \<Rightarrow> rx list \<Rightarrow> jsstring option list" where
  "split s rs =
     (if s = [] then (if rmatch rs 0 [] ([], []) = None then [Some []] else [])
      else splitLoop rs 0 0 s [])"

section \<open>Rendering an assistant message (ChatMessage.tsx)\<close>

text \<open>
  The exceptions the modelled code can raise: a method called on \<^verbatim>\<open>undefined\<close> or
  \<^verbatim>\<open>null\<close>, a syntax error of \<^verbatim>\<open>JSON.parse\<close>, and the errors of the collaborators.
\<close>

datatype jserror = TypeError | SyntaxError | ChatNotInitialized | ModelFailure | FileReadFailure

subsection \<open>FormattedText: inline bold and link markup\<close>

text \<open>
  A rendered fragment: the part itself, a \<^verbatim>\<open>strong\<close> element or an anchor with its
  display text and target.
\<close>

datatype run = PlainRun jsstring | BoldRun jsstring | LinkRun "jsstring option" "jsstring option"

text \<open>\<^verbatim>\<open>/(\*\*.*?\*\*|\[.*?\]\(.*?\))/g\<close> and \<^verbatim>\<open>/\[(.*?)\]\((.*?)\)/\<close>.\<close>

definition boldOrLink :: "rx list" where
  "boldOrLink =
     [Open 1,
      Alt (lits ''**'' @ [Lazy Dot] @ lits ''**'')
          (lits ''['' @ [Lazy Dot] @ lits '']('' @ [Lazy Dot] @ lits '')''),
      Close 1]"

definition linkPattern :: "rx list" where
  "linkPattern =
     lits ''['' @ [Open 1, Lazy Dot, Close 1] @ lits '']('' @ [Open 2, Lazy Dot, Close 2] @ lits '')''"

definition formatPart :: "jsstring \<Rightarrow> run" where
  "formatPart part =
     (if startsWith part (str ''**'') \<and> endsWith part (str ''**'')
      then BoldRun (slice part 2 (- 2))
      else case jsmatch part linkPattern of
             Some m \<Rightarrow> LinkRun (group m 1) (group m 2)
           | None \<Rightarrow> PlainRun part)"

fun formatParts :: "jsstring option list \<Rightarrow> jserror + run list" where
  "formatParts [] = Inr []"
| "formatParts (None # ps) = Inl TypeError"
| "formatParts (Some p # ps) =
     (case formatParts ps of Inl e \<Rightarrow> Inl e | Inr rs \<Rightarrow> Inr (formatPart p # rs))"

definition FormattedText :: "jsstring \<Rightarrow> jserror + run list" where
  "FormattedText text = formatParts (split text boldOrLink)"

subsection \<open>parseBotResponse: numbered sections\<close>

record ParsedSection =
  title :: jsstring
  content :: jsstring

record ParsedResponse =
  intro :: jsstring
  sections :: "ParsedSection list"
  outro :: jsstring

text \<open>
  \<^verbatim>\<open>sectionMarker = /\n\s*\d+\.\s+\*\*(.*?):\*\*/\<close>. Its source is used a second time
  inside the pattern of the introduction, there with the \<^verbatim>\<open>s\<close> flag (the dot matches a
  line terminator too) and as the second group, so the source takes the class of the dot
  and the number of its group.
\<close>

definition markerSource :: "cclass \<Rightarrow> nat \<Rightarrow> rx list" where
  "markerSource dot g =
     [One (Lit 10), Star Space, Plus Digit, One (Lit 46), Plus Space]
     @ lits ''**'' @ [Open g, Lazy dot, Close g] @ lits '':**''"

definition sectionMarker :: "rx list" where
  "sectionMarker = markerSource Dot 1"

text \<open>\<^verbatim>\<open>new RegExp(`^(.*?)(?=${sectionMarker.source})`, 's')\<close>\<close>

definition introPattern :: "rx list" where
  "introPattern = [Bos, Open 1, Lazy DotAll, Close 1, Look (markerSource DotAll 2)]"

text \<open>\<^verbatim>\<open>/\n\s*(?=\d+\.\s+\*\*(.*?):\*\*)/g\<close> and \<^verbatim>\<open>/^\d+\.\s+\*\*(.*?):\*\*/\<close>\<close>

definition partSeparator :: "rx list" where
  "partSeparator =
     [One (Lit 10), Star Space,
      Look ([Plus Digit, One (Lit 46), Plus Space]
            @ lits ''**'' @ [Open 1, Lazy Dot, Close 1] @ lits '':**'')]"

definition titlePattern :: "rx list" where
  "titlePattern =
     [Bos, Plus Digit, One (Lit 46), Plus Space]
     @ lits ''**'' @ [Open 1, Lazy Dot, Close 1] @ lits '':**''"

text \<open>\<^verbatim>\<open>.filter(p => p.trim())\<close>: calling \<^verbatim>\<open>trim\<close> on \<^verbatim>\<open>undefined\<close> throws.\<close>

fun keepNonBlank :: "jsstring option list \<Rightarrow> jserror + jsstring list" where
  "keepNonBlank [] = Inr []"
| "keepNonBlank (None # ps) = Inl TypeError"
| "keepNonBlank (Some p # ps) =
     (case keepNonBlank ps of
        Inl e \<Rightarrow> Inl e
      | Inr r \<Rightarrow> Inr (if trim p \<noteq> [] then p # r else r))"

text \<open>The body of the \<^verbatim>\<open>forEach\<close>: the section a part yields, if any.\<close>

definition sectionOf :: "jsstring \<Rightarrow> ParsedSection option" where
  "sectionOf part =
     (case jsmatch part titlePattern of
        None \<Rightarrow> None
      | Some titleMatch \<Rightarrow>
          (case group titleMatch 1 of
             None \<Rightarrow> None
           | Some t \<Rightarrow>
               (let c = trim (substringFrom part (int (length (matched titleMatch))))
                in if t \<noteq> [] \<and> c \<noteq> [] then Some \<lparr>title = t, content = c\<rparr> else None)))"

definition findOutro :: "jsstring \<Rightarrow> ParsedSection list \<Rightarrow> jsstring" where
  "findOutro text secs =
     (let lastSectionText =
            (if secs \<noteq> []
             then str ''**'' @ title (last secs) @ str '':**'' @ content (last secs)
             else []);
          lastSectionFullMarker = lastIndexOf text lastSectionText
      in if lastSectionFullMarker > - 1
         then (let outroIndex = lastSectionFullMarker + int (length lastSectionText);
                   potentialOutro = trim (substringFrom text outroIndex)
               in if potentialOutro \<noteq> [] \<and> jsmatch potentialOutro sectionMarker = None
                  then potentialOutro else [])
         else [])"

definition splitIntro :: "jsstring \<Rightarrow> jserror + jsstring \<times> jsstring" where
  "splitIntro text =
     (case jsmatch text introPattern of
        None \<Rightarrow> Inr ([], text)
      | Some introMatch \<Rightarrow>
          (case group introMatch 1 of
             None \<Rightarrow> Inl TypeError
           | Some g \<Rightarrow> Inr (trim g, substringFrom text (int (length (matched introMatch))))))"

definition parseBotResponse :: "jsstring \<Rightarrow> jserror + ParsedResponse option" where
  "parseBotResponse text =
     (if jsmatch text sectionMarker = None then Inr None
      else case splitIntro text of
             Inl e \<Rightarrow> Inl e
           | Inr (intro0, remainingText) \<Rightarrow>
               (case keepNonBlank (split remainingText partSeparator) of
                  Inl e \<Rightarrow> Inl e
                | Inr parts \<Rightarrow>
                    (let secs = List.map_filter sectionOf parts
                     in Inr (Some \<lparr>intro = intro0, sections = secs,
                                    outro = findOutro text secs\<rparr>))))"

section \<open>JSON.parse\<close>

text \<open>
  The values \<^verbatim>\<open>JSON.parse\<close> builds. A number keeps its lexeme: nothing in the code under
  study computes with it. An object keeps its members in the order of the text; a key
  written twice has the value written last.
\<close>

datatype json = JNull | JBool bool | JNum jsstring | JStr jsstring
  | JArr "json list" | JObj "(jsstring \<times> json) list"

datatype token = TLBrace | TRBrace | TLBrack | TRBrack | TColon | TComma
  | TStr jsstring | TNum jsstring | TTrue | TFalse | TNull

definition isJsonSpace :: "nat \<Rightarrow> bool" where
  "isJsonSpace c = (c = 32 \<or> c = 9 \<or> c = 10 \<or> c = 13)"

definition isDigit :: "nat \<Rightarrow> bool" where
  "isDigit c = (48 \<le> c \<and> c \<le> 57)"

definition hexValue :: "nat \<Rightarrow> nat option" where
  "hexValue c =
     (if 48 \<le> c \<and> c \<le> 57 then Some (c - 48)
      else if 97 \<le> c \<and> c \<le> 102 then Some (c - 87)
      else if 65 \<le> c \<and> c \<le> 70 then Some (c - 55)
      else None)"

definition unescape :: "nat \<Rightarrow> nat option" where
  "unescape e =
     (if e = 34 \<or> e = 92 \<or> e = 47 then Some e
      else if e = 98 then Some 8
      else if e = 102 then Some 12
      else if e = 110 then Some 10
      else if e = 114 then Some 13
      else if e = 116 then Some 9
      else None)"

text \<open>
  The characters of a string literal after its opening quote, up to the closing one:
  no control character, a backslash starts an escape.
\<close>

definition lexEscape :: "jsstring \<Rightarrow> (nat \<times> jsstring) option" where
  "lexEscape cs =
     (case cs of
        [] \<Rightarrow> None
      | e # cs1 \<Rightarrow>
          if e = 117 then
            (case cs1 of
               h1 # h2 # h3 # h4 # cs2 \<Rightarrow>
                 (case (hexValue h1, hexValue h2, hexValue h3, hexValue h4) of
                    (Some a, Some b, Some c, Some d) \<Rightarrow>
                      Some (((a * 16 + b) * 16 + c) * 16 + d, cs2)
                  | _ \<Rightarrow> None)
             | _ \<Rightarrow> None)
          else map_option (\<lambda>u. (u, cs1)) (unescape e))"

lemma lexEscape_shorter: "lexEscape cs = Some (u, rest) \<Longrightarrow> length rest < length cs"
  by (auto simp: lexEscape_def split: list.splits if_splits option.splits)

function lexString :: "jsstring \<Rightarrow> jsstring \<Rightarrow> (jsstring \<times> jsstring) option" where
  "lexString acc [] = None"
| "lexString acc (c # cs) =
     (if c = 34 then Some (rev acc, cs)
      else if c = 92 then
        (case lexEscape cs of
           None \<Rightarrow> None
         | Some (u, rest) \<Rightarrow> lexString (u # acc) rest)
      else if c < 32 then None
      else lexString (c # acc) cs)"
  by pat_completeness auto
termination
proof (relation "measure (\<lambda>(acc, cs). length cs)", goal_cases)
  case (2 acc c cs x u rest)
  then show ?case using lexEscape_shorter [of cs u rest] by simp
qed auto

text \<open>A number: an optional minus, the integer part, an optional fraction and exponent.\<close>

definition lexExponent :: "jsstring \<Rightarrow> jsstring \<Rightarrow> (jsstring \<times> jsstring) option" where
  "lexExponent acc s =
     (case s of
        [] \<Rightarrow> Some (acc, s)
      | c # r \<Rightarrow>
          if c = 101 \<or> c = 69 then
            (let sg = (case r of [] \<Rightarrow> [] | x # r' \<Rightarrow> if x = 43 \<or> x = 45 then [x] else []);
                 r1 = drop (length sg) r;
                 ds = takeWhile isDigit r1
             in if ds = [] then None else Some (acc @ c # sg @ ds, dropWhile isDigit r1))
          else Some (acc, s))"

definition lexFraction :: "jsstring \<Rightarrow> jsstring \<Rightarrow> (jsstring \<times> jsstring) option" where
  "lexFraction acc s =
     (case s of
        [] \<Rightarrow> lexExponent acc s
      | c # r \<Rightarrow>
          if c = 46 then
            (let ds = takeWhile isDigit r
             in if ds = [] then None else lexExponent (acc @ c # ds) (dropWhile isDigit r))
          else lexExponent acc s)"

definition lexNumber :: "jsstring \<Rightarrow> (jsstring \<times> jsstring) option" where
  "lexNumber s =
     (let sg = (case s of [] \<Rightarrow> [] | c # r \<Rightarrow> if c = 45 then [c] else []);
          s1 = drop (length sg) s
      in case s1 of
           [] \<Rightarrow> None
         | d # r \<Rightarrow>
             if d = 48 then lexFraction (sg @ [d]) r
             else if 49 \<le> d \<and> d \<le> 57
             then lexFraction (sg @ d # takeWhile isDigit r) (dropWhile isDigit r)
             else None)"

lemma lexString_shorter: "lexString acc cs = Some (s, rest) \<Longrightarrow> length rest < length cs"
proof (induction acc cs rule: lexString.induct)
  case (1 acc)
  then show ?case by simp
next
  case (2 acc c cs)
  show ?case
  proof (cases "c = 34")
    case True
    with "2.prems" show ?thesis by simp
  next
    case False
    note not_quote = this
    show ?thesis
    proof (cases "c = 92")
      case True
      with not_quote "2.prems" obtain u r where e: "lexEscape cs = Some (u, r)"
        and l: "lexString (u # acc) r = Some (s, rest)"
        by (auto split: option.splits)
      from "2.IH"(1) [OF not_quote True e refl l] lexEscape_shorter [OF e]
      show ?thesis by simp
    next
      case False
      with not_quote "2.prems" have lt: "\<not> c < 32"
        and l: "lexString (c # acc) cs = Some (s, rest)"
        by (auto split: if_splits)
      from "2.IH"(2) [OF not_quote False lt l] show ?thesis by simp
    qed
  qed
qed

lemma lexExponent_rest:
  assumes "lexExponent acc s = Some (n, rest)"
  shows "length rest \<le> length s"
proof (cases s)
  case Nil
  with assms show ?thesis by (simp add: lexExponent_def)
next
  case (Cons c r)
  show ?thesis
  proof (cases "c = 101 \<or> c = 69")
    case True
    with assms Cons obtain k where "rest = dropWhile isDigit (drop k r)"
      by (auto simp: lexExponent_def Let_def split: if_splits)
    then have "length rest \<le> length (drop k r)"
      using length_dropWhile_le [of isDigit "drop k r"] by simp
    then show ?thesis using Cons by simp
  next
    case False
    with assms Cons show ?thesis by (simp add: lexExponent_def)
  qed
qed

lemma lexFraction_rest:
  assumes "lexFraction acc s = Some (n, rest)"
  shows "length rest \<le> length s"
proof (cases s)
  case Nil
  with assms have "lexExponent acc s = Some (n, rest)" by (simp add: lexFraction_def)
  from lexExponent_rest [OF this] show ?thesis .
next
  case (Cons c r)
  show ?thesis
  proof (cases "c = 46")
    case True
    with assms Cons have
      "lexExponent (acc @ c # takeWhile isDigit r) (dropWhile isDigit r) = Some (n, rest)"
      by (simp add: lexFraction_def Let_def split: if_splits)
    from lexExponent_rest [OF this] have "length rest \<le> length (dropWhile isDigit r)" .
    also have "\<dots> \<le> length r" by (rule length_dropWhile_le)
    finally show ?thesis using Cons by simp
  next
    case False
    with assms Cons have "lexExponent acc s = Some (n, rest)" by (simp add: lexFraction_def)
    from lexExponent_rest [OF this] show ?thesis .
  qed
qed

lemma lexNumber_shorter:
  assumes "lexNumber s = Some (n, rest)"
  shows "length rest < length s"
proof -
  define sg where "sg = (case s of [] \<Rightarrow> [] | c # r \<Rightarrow> if c = 45 then [c] else [])"
  define s1 where "s1 = drop (length sg) s"
  have s1: "length s1 \<le> length s" by (simp add: s1_def)
  show ?thesis
  proof (cases s1)
    case Nil
    with assms show ?thesis by (simp add: lexNumber_def sg_def s1_def Let_def)
  next
    case (Cons d r)
    have r: "length r < length s" using s1 Cons by simp
    show ?thesis
    proof (cases "d = 48")
      case True
      with assms Cons have "lexFraction (sg @ [d]) r = Some (n, rest)"
        by (simp add: lexNumber_def sg_def s1_def Let_def)
      from lexFraction_rest [OF this] r show ?thesis by simp
    next
      case False
      with assms Cons have
        "lexFraction (sg @ d # takeWhile isDigit r) (dropWhile isDigit r) = Some (n, rest)"
        by (simp add: lexNumber_def sg_def s1_def Let_def split: if_splits)
      from lexFraction_rest [OF this] have "length rest \<le> length (dropWhile isDigit r)" .
      also have "\<dots> \<le> length r" by (rule length_dropWhile_le)
      finally show ?thesis using r by simp
    qed
  qed
qed

function lex :: "jsstring \<Rightarrow> token list option" where
  "lex [] = Some []"
| "lex (c # cs) =
     (if isJsonSpace c then lex cs
      else if c = 123 then map_option ((#) TLBrace) (lex cs)
      else if c = 125 then map_option ((#) TRBrace) (lex cs)
      else if c = 91 then map_option ((#) TLBrack) (lex cs)
      else if c = 93 then map_option ((#) TRBrack) (lex cs)
      else if c = 58 then map_option ((#) TColon) (lex cs)
      else if c = 44 then map_option ((#) TComma) (lex cs)
      else if c = 34 then
        (case lexString [] cs of
           None \<Rightarrow> None
         | Some (s, rest) \<Rightarrow> map_option ((#) (TStr s)) (lex rest))
      else if c = 45 \<or> isDigit c then
        (case lexNumber (c # cs) of
           None \<Rightarrow> None
         | Some (n, rest) \<Rightarrow> map_option ((#) (TNum n)) (lex rest))
      else if startsWith (c # cs) (str ''true'') then map_option ((#) TTrue) (lex (drop 3 cs))
      else if startsWith (c # cs) (str ''false'') then map_option ((#) TFalse) (lex (drop 4 cs))
      else if startsWith (c # cs) (str ''null'') then map_option ((#) TNull) (lex (drop 3 cs))
      else None)"
  by pat_completeness auto
termination
proof (relation "measure length", goal_cases)
  case (9 c cs x s rest)
  then show ?case using lexString_shorter [of "[]" cs s rest] by simp
next
  case (10 c cs x n rest)
  then show ?case using lexNumber_shorter [of "c # cs" n rest] by simp
qed auto

text \<open>
  The grammar, as a pushdown automaton over the tokens. A frame of the stack is an open
  array with its elements so far, or an open object with its members so far and the key
  whose value is being read (both lists newest first).
\<close>

datatype frame = InArr "json list" | InObj "(jsstring \<times> json) list" "jsstring option"

datatype pmode = Value | ValueOrClose | KeyOrClose | Key | Colon | After json

fun beginValue :: "token \<Rightarrow> frame list \<Rightarrow> (pmode \<times> frame list) option" where
  "beginValue (TStr s) st = Some (After (JStr s), st)"
| "beginValue (TNum n) st = Some (After (JNum n), st)"
| "beginValue TTrue st = Some (After (JBool True), st)"
| "beginValue TFalse st = Some (After (JBool False), st)"
| "beginValue TNull st = Some (After JNull, st)"
| "beginValue TLBrack st = Some (ValueOrClose, InArr [] # st)"
| "beginValue TLBrace st = Some (KeyOrClose, InObj [] None # st)"
| "beginValue _ st = None"

fun setKey :: "jsstring \<Rightarrow> frame list \<Rightarrow> (pmode \<times> frame list) option" where
  "setKey k (InObj ms _ # st) = Some (Colon, InObj ms (Some k) # st)"
| "setKey k _ = None"

fun afterValue :: "json \<Rightarrow> token \<Rightarrow> frame list \<Rightarrow> (pmode \<times> frame list) option" where
  "afterValue v t (InArr es # st) =
     (if t = TComma then Some (Value, InArr (v # es) # st)
      else if t = TRBrack then Some (After (JArr (rev (v # es))), st)
      else None)"
| "afterValue v t (InObj ms (Some k) # st) =
     (if t = TComma then Some (Key, InObj ((k, v) # ms) None # st)
      else if t = TRBrace then Some (After (JObj (rev ((k, v) # ms))), st)
      else None)"
| "afterValue v t _ = None"

fun pstep :: "pmode \<Rightarrow> token \<Rightarrow> frame list \<Rightarrow> (pmode \<times> frame list) option" where
  "pstep Value t st = beginValue t st"
| "pstep ValueOrClose t st =
     (if t = TRBrack then Some (After (JArr []), tl st) else beginValue t st)"
| "pstep KeyOrClose t st =
     (if t = TRBrace then Some (After (JObj []), tl st)
      else case t of TStr k \<Rightarrow> setKey k st | _ \<Rightarrow> None)"
| "pstep Key t st = (case t of TStr k \<Rightarrow> setKey k st | _ \<Rightarrow> None)"
| "pstep Colon t st = (if t = TColon then Some (Value, st) else None)"
| "pstep (After v) t st = afterValue v t st"

fun parseTokens :: "pmode \<Rightarrow> frame list \<Rightarrow> token list \<Rightarrow> json option" where
  "parseTokens m st [] = (case (m, st) of (After v, []) \<Rightarrow> Some v | _ \<Rightarrow> None)"
| "parseTokens m st (t # ts) =
     (case pstep m t st of None \<Rightarrow> None | Some (m', st') \<Rightarrow> parseTokens m' st' ts)"

definition JSON_parse :: "jsstring \<Rightarrow> jserror + json" where
  "JSON_parse s =
     (case lex s of
        None \<Rightarrow> Inl SyntaxError
      | Some ts \<Rightarrow> (case parseTokens Value [] ts of None \<Rightarrow> Inl SyntaxError | Some v \<Rightarrow> Inr v))"

section \<open>The response classifier (cleanAndParseJson)\<close>

text \<open>
  Reading a property: of an object, the member written last under that name or
  \<^verbatim>\<open>undefined\<close> (\<open>None\<close>); of \<^verbatim>\<open>null\<close>, a \<^verbatim>\<open>TypeError\<close>; of any other value,
  \<^verbatim>\<open>undefined\<close> for the two names read here.
\<close>

fun getProp :: "json \<Rightarrow> jsstring \<Rightarrow> jserror + json option" where
  "getProp (JObj ms) k = Inr (map_of (rev ms) k)"
| "getProp JNull k = Inl TypeError"
| "getProp _ k = Inr None"

text \<open>
  The test \<^verbatim>\<open>parsed.question && typeof parsed.question === 'string' &&
  Array.isArray(parsed.options)\<close> and what the caller reads of the object returned.
\<close>

definition checkShape :: "json \<Rightarrow> jserror + (jsstring \<times> json list) option" where
  "checkShape parsed =
     (case getProp parsed (str ''question'') of
        Inl e \<Rightarrow> Inl e
      | Inr (Some (JStr q)) \<Rightarrow>
          if q \<noteq> [] then
            (case getProp parsed (str ''options'') of
               Inl e \<Rightarrow> Inl e
             | Inr (Some (JArr opts)) \<Rightarrow> Inr (Some (q, opts))
             | Inr _ \<Rightarrow> Inr None)
          else Inr None
      | Inr _ \<Rightarrow> Inr None)"

definition tryParse :: "jsstring \<Rightarrow> jserror + (jsstring \<times> json list) option" where
  "tryParse jsonString =
     (case JSON_parse jsonString of Inl e \<Rightarrow> Inl e | Inr parsed \<Rightarrow> checkShape parsed)"

definition cleanAndParseJson :: "jsstring \<Rightarrow> (jsstring \<times> json list) option" where
  "cleanAndParseJson text =
     (let jsonStart = indexOf text (str ''{''); jsonEnd = lastIndexOf text (str ''}'')
      in if jsonStart = - 1 \<or> jsonEnd = - 1 \<or> jsonEnd < jsonStart then None
         else (let jsonString = substring text jsonStart (jsonEnd + 1)
               in case tryParse jsonString of Inl e \<Rightarrow> None | Inr r \<Rightarrow> r))"

section \<open>The model service (geminiService.streamResponse)\<close>

record ImagePart =
  mimeType :: jsstring
  data :: jsstring

datatype Part = InlineData ImagePart | TextPart jsstring

text \<open>
  \<^verbatim>\<open>streamResponse\<close> up to its first \<^verbatim>\<open>await\<close>: it throws when no chat session exists,
  returns a fixed text when there is nothing to send, and otherwise sends the parts to
  the model.
\<close>

datatype CallResult = Threw jserror | Returned jsstring | Sent "Part list"

definition streamResponse_begin :: "bool \<Rightarrow> jsstring \<Rightarrow> ImagePart option \<Rightarrow> CallResult" where
  "streamResponse_begin chatReady prompt img =
     (if \<not> chatReady then Threw ChatNotInitialized
      else (let parts = (case img of None \<Rightarrow> [] | Some i \<Rightarrow> [InlineData i])
                        @ (if trim prompt \<noteq> [] then [TextPart prompt] else [])
            in if parts = [] then Returned (str ''Please provide a question or an image.'')
               else Sent parts))"

text \<open>
  What the model does with a request: the call or the stream fails, or the stream
  delivers its chunks, each with a text or none. \<^verbatim>\<open>streamResponse\<close> after the
  \<^verbatim>\<open>await\<close>: the texts are concatenated; a blank result is replaced by an apology.
\<close>

datatype StreamOutcome = StreamFailed | Chunks "jsstring option list"

definition streamResponse_end :: "StreamOutcome \<Rightarrow> jserror + jsstring" where
  "streamResponse_end out =
     (case out of
        StreamFailed \<Rightarrow> Inl ModelFailure
      | Chunks cs \<Rightarrow>
          (let responseText = concat (map (\<lambda>c. case c of None \<Rightarrow> [] | Some chunkText \<Rightarrow> chunkText) cs)
           in if trim responseText = []
              then Inr (str ''I'm sorry, I couldn't process that. Could you please try rephrasing?'')
              else Inr responseText))"

section \<open>The conversation controller (App)\<close>

datatype Role = USER | BOT | SYSTEM

text \<open>
  A message of the store. \<^verbatim>\<open>options\<close> is declared \<^verbatim>\<open>string[]\<close>, but holds whatever array
  the model's JSON had: nothing checks its elements.
\<close>

record Message =
  msg_id :: jsstring
  role :: Role
  msg_text :: jsstring
  imageUrl :: "jsstring option"
  options :: "json list option"
  isQuestion :: "bool option"

text \<open>An attached image: its MIME type and the URL \<^verbatim>\<open>URL.createObjectURL\<close> gives it.\<close>

record File =
  file_type :: jsstring
  objectUrl :: jsstring

text \<open>
  A call of \<^verbatim>\<open>handleSendMessage\<close> suspended at an \<^verbatim>\<open>await\<close>: reading the attached file
  (with the text and \<^verbatim>\<open>userMessage?.imageUrl\<close>), or waiting for the model (with the parts
  sent and \<^verbatim>\<open>userMessage?.imageUrl\<close>).
\<close>

datatype Pending = ReadingFile jsstring File "jsstring option"
  | Streaming "Part list" "jsstring option"

text \<open>
  A geolocation request whose callback has not run: the id of its placeholder message,
  and the \<^verbatim>\<open>isLoading\<close> that the \<^verbatim>\<open>handleSendMessage\<close> closure of its callbacks captured
  when \<^verbatim>\<open>handleLocationRequest\<close> ran (\<^verbatim>\<open>useCallback(..., [isLoading])\<close>).
\<close>

record Locating =
  locatingId :: jsstring
  capturedLoading :: bool

record App =
  messages :: "Message list"
  isLoading :: bool
  isBotTyping :: bool
  chat :: bool
  pending :: "Pending list"
  locating :: "Locating list"
  revoked :: "jsstring list"

definition initial :: App where
  "initial = \<lparr>messages = [], isLoading = False, isBotTyping = False, chat = False,
               pending = [], locating = [], revoked = []\<rparr>"

text \<open>The decimal digits of \<^verbatim>\<open>Date.now()\<close> inside a template string.\<close>

function decimal :: "nat \<Rightarrow> jsstring" where
  "decimal n = (if n < 10 then [48 + n] else decimal (n div 10) @ [48 + n mod 10])"
  by pat_completeness auto
termination
  by (relation "measure id") auto

declare decimal.simps [simp del]

definition plainMessage :: "jsstring \<Rightarrow> Role \<Rightarrow> jsstring \<Rightarrow> Message" where
  "plainMessage i r t =
     \<lparr>msg_id = i, role = r, msg_text = t, imageUrl = None, options = None, isQuestion = None\<rparr>"

definition greeting :: Message where
  "greeting = plainMessage (str ''initial-greeting'') BOT
     (str ''Hello! I'm MediGenie, your personal AI health companion. I'm here to provide clear, confident health guidance. How can I help you today?'')"

definition initError :: Message where
  "initError = plainMessage (str ''init-error'') SYSTEM
     (str ''Failed to initialize the chat service. Please check your API key and refresh the page.'')"

text \<open>
  \<^verbatim>\<open>initChat\<close>; \<open>created\<close> says whether \<^verbatim>\<open>initializeChat\<close> got its session. The function
  awaits a promise that is already settled, so it runs to its end before any other event.
\<close>

definition initChat :: "bool \<Rightarrow> App \<Rightarrow> App" where
  "initChat created s =
     (if created then s\<lparr>chat := True, messages := [greeting], isLoading := False\<rparr>
      else s\<lparr>messages := [initError], isLoading := False\<rparr>)"

definition handleNewChat :: "bool \<Rightarrow> bool \<Rightarrow> App \<Rightarrow> App" where
  "handleNewChat confirmed created s = (if confirmed then initChat created s else s)"

text \<open>The assistant message built from a response, and the message of the \<^verbatim>\<open>catch\<close>.\<close>

definition botResponse :: "jsstring \<Rightarrow> nat \<Rightarrow> Message" where
  "botResponse responseText now =
     (case cleanAndParseJson responseText of
        Some (q, opts) \<Rightarrow>
          \<lparr>msg_id = str ''bot-'' @ decimal now, role = BOT, msg_text = q, imageUrl = None,
           options = Some opts, isQuestion = Some True\<rparr>
      | None \<Rightarrow> plainMessage (str ''bot-'' @ decimal now) BOT responseText)"

definition errorMessage :: "nat \<Rightarrow> Message" where
  "errorMessage now = plainMessage (str ''system-'' @ decimal now) SYSTEM
     (str ''Sorry, something went wrong. Please try again.'')"

text \<open>
  \<^verbatim>\<open>handleSendMessage\<close> from the point where its awaited promise settles: the rest of the
  \<^verbatim>\<open>try\<close> or the \<^verbatim>\<open>catch\<close>, then the \<^verbatim>\<open>finally\<close>.
\<close>

definition finishSend :: "jserror + jsstring \<Rightarrow> jsstring option \<Rightarrow> nat \<Rightarrow> App \<Rightarrow> App" where
  "finishSend r url now s =
     s\<lparr>messages := messages s
          @ [case r of Inr responseText \<Rightarrow> botResponse responseText now | Inl e \<Rightarrow> errorMessage now],
       isBotTyping := False,
       isLoading := False,
       revoked := revoked s @ (case url of None \<Rightarrow> [] | Some u \<Rightarrow> if u \<noteq> [] then [u] else [])\<rparr>"

text \<open>
  The call \<^verbatim>\<open>await geminiService.streamResponse(text, imagePart)\<close>: when the service
  throws or returns at once the submission finishes in the same turn, otherwise it waits
  for the model.
\<close>

definition callStream :: "jsstring \<Rightarrow> ImagePart option \<Rightarrow> jsstring option \<Rightarrow> nat \<Rightarrow> App \<Rightarrow> App" where
  "callStream text imagePart url now s =
     (case streamResponse_begin (chat s) text imagePart of
        Threw e \<Rightarrow> finishSend (Inl e) url now s
      | Returned t \<Rightarrow> finishSend (Inr t) url now s
      | Sent parts \<Rightarrow> s\<lparr>pending := pending s @ [Streaming parts url]\<rparr>)"

text \<open>
  \<^verbatim>\<open>handleSendMessage(text, image, isHidden)\<close>. Its first argument here is the \<^verbatim>\<open>isLoading\<close>
  of its closure: the function is rebuilt by \<^verbatim>\<open>useCallback\<close> when \<^verbatim>\<open>isLoading\<close> changes,
  and a caller that kept an older instance tests the value of that time.
\<close>

definition handleSendMessage ::
  "bool \<Rightarrow> jsstring \<Rightarrow> File option \<Rightarrow> bool \<Rightarrow> nat \<Rightarrow> App \<Rightarrow> App" where
  "handleSendMessage isLoadingC text img isHidden now s =
     (if (trim text = [] \<and> img = None) \<or> isLoadingC then s
      else (let url = (if isHidden then None else map_option objectUrl img);
                userMessage =
                  \<lparr>msg_id = str ''user-'' @ decimal now, role = USER, msg_text = text,
                   imageUrl = url, options = None, isQuestion = None\<rparr>;
                s1 = s\<lparr>isLoading := True,
                       messages := messages s @ (if isHidden then [] else [userMessage]),
                       isBotTyping := True\<rparr>
            in case img of
                 Some f \<Rightarrow> s1\<lparr>pending := pending s1 @ [ReadingFile text f url]\<rparr>
               | None \<Rightarrow> callStream text None url now s1))"

text \<open>\<^verbatim>\<open>ChatInput.handleSend\<close>, with the text and the image of the input box.\<close>

definition handleSend :: "jsstring \<Rightarrow> File option \<Rightarrow> nat \<Rightarrow> App \<Rightarrow> App" where
  "handleSend text img now s =
     (if (trim text \<noteq> [] \<or> img \<noteq> None) \<and> \<not> isLoading s
      then handleSendMessage (isLoading s) text img False now s
      else s)"

text \<open>
  \<^verbatim>\<open>handleLocationRequest\<close>; \<open>geo\<close> says whether \<^verbatim>\<open>navigator.geolocation\<close> exists.
\<close>

definition handleLocationRequest :: "bool \<Rightarrow> bool \<Rightarrow> nat \<Rightarrow> App \<Rightarrow> App" where
  "handleLocationRequest isLoadingC geo now s =
     (if \<not> geo
      then handleSendMessage isLoadingC
             (str ''My browser doesn't support geolocation, so I cannot share my location.'')
             None False now s
      else (let userMessage = plainMessage (str ''user-'' @ decimal now) USER
                                (str ''Yes, help me find a facility.'');
                locatingMessage = plainMessage (str ''bot-locating-'' @ decimal now) BOT
                                    (str ''Got it. Finding your location...'')
            in s\<lparr>messages := messages s @ [userMessage, locatingMessage],
                 locating := locating s
                   @ [\<lparr>locatingId = msg_id locatingMessage, capturedLoading = isLoadingC\<rparr>]\<rparr>))"

definition locationPrompt :: "jsstring \<Rightarrow> jsstring \<Rightarrow> jsstring" where
  "locationPrompt latitude longitude =
     str ''The user has shared their location. Latitude: '' @ latitude
     @ str '', Longitude: '' @ longitude
     @ str ''. Please provide the final advice including nearby medical facilities.''"

definition errorPrompt :: "jsstring \<Rightarrow> jsstring" where
  "errorPrompt message =
     str ''The user tried to share their location, but an error occurred: '' @ message
     @ str ''. Please provide final advice without location suggestions and mention that location services failed.''"

text \<open>
  The two callbacks of \<^verbatim>\<open>getCurrentPosition\<close>, for the request \<open>g\<close>: the placeholder is
  filtered out of the store, then the prompt is sent hidden through the
  \<^verbatim>\<open>handleSendMessage\<close> that the callback captured.
\<close>

definition positionCallback :: "Locating \<Rightarrow> jsstring \<Rightarrow> nat \<Rightarrow> App \<Rightarrow> App" where
  "positionCallback g prompt now s =
     handleSendMessage (capturedLoading g) prompt None True now
       (s\<lparr>messages := filter (\<lambda>m. msg_id m \<noteq> locatingId g) (messages s)\<rparr>)"

text \<open>\<^verbatim>\<open>handleOptionClick\<close>, with the \<^verbatim>\<open>isLoading\<close> of the render it belongs to.\<close>

definition lastQuestion :: "Message list \<Rightarrow> Message option" where
  "lastQuestion ms = find (\<lambda>m. role m = BOT \<and> isQuestion m = Some True) (rev ms)"

definition isLocationQuestion :: "Message list \<Rightarrow> bool" where
  "isLocationQuestion ms =
     (case lastQuestion ms of
        None \<Rightarrow> False
      | Some lastMessage \<Rightarrow> jsincludes (msg_text lastMessage) (str ''find a nearby medical facility''))"

definition handleOptionClick :: "bool \<Rightarrow> jsstring \<Rightarrow> bool \<Rightarrow> nat \<Rightarrow> App \<Rightarrow> App" where
  "handleOptionClick isLoadingC optionText geo now s =
     (if jsincludes (toLowerCase optionText) (str ''find a facility'') \<and> isLocationQuestion (messages s)
      then handleLocationRequest isLoadingC geo now s
      else handleSendMessage isLoadingC optionText None False now s)"

text \<open>
  A click on option \<open>j\<close> of the message at index \<open>i\<close> (ChatMessage.tsx). The buttons exist
  for a message that is not a system notice and has \<^verbatim>\<open>isQuestion && options\<close>; a button is
  \<^verbatim>\<open>disabled={isLoading || !isLastMessage}\<close>, and a disabled button does not call its
  handler. An option that is not a string makes \<^verbatim>\<open>toLowerCase\<close> throw in the handler,
  before any state is set.
\<close>

definition optionEnabled :: "nat \<Rightarrow> App \<Rightarrow> bool" where
  "optionEnabled i s = (\<not> (isLoading s \<or> \<not> (int i = int (length (messages s)) - 1)))"

definition clickOption :: "nat \<Rightarrow> nat \<Rightarrow> bool \<Rightarrow> nat \<Rightarrow> App \<Rightarrow> App" where
  "clickOption i j geo now s =
     (if i < length (messages s) then
        (let m = messages s ! i in
         case options m of
           None \<Rightarrow> s
         | Some opts \<Rightarrow>
             if role m \<noteq> SYSTEM \<and> isQuestion m = Some True \<and> j < length opts \<and> optionEnabled i s
             then (case opts ! j of
                     JStr optionText \<Rightarrow> handleOptionClick (isLoading s) optionText geo now s
                   | _ \<Rightarrow> s)
             else s)
      else s)"

text \<open>
  The events of the application: the user's actions and the settling of what the
  application waits for. An index \<open>k\<close> names the suspended submission or the geolocation
  request concerned; \<open>now\<close> is what \<^verbatim>\<open>Date.now()\<close> returns during the event.
  \<^item> \<open>InitChat created\<close>: \<^verbatim>\<open>initChat\<close> run by the effect of the first render.
  \<^item> \<open>NewChat confirmed created\<close>: the button of the header, with the answer of
    \<^verbatim>\<open>window.confirm\<close>. The button is never disabled.
  \<^item> \<open>Submit text img now\<close>: \<^verbatim>\<open>ChatInput.handleSend\<close> (the send button or the Enter key).
  \<^item> \<open>ClickOption i j geo now\<close>: a click on option \<open>j\<close> of the message at index \<open>i\<close>.
  \<^item> \<open>FileLoaded k base64 now\<close>, \<open>FileFailed k now\<close>: \<^verbatim>\<open>fileToBase64\<close> resolves with the
    encoded data, or rejects.
  \<^item> \<open>StreamEnded k out now\<close>: the request to the model ends with the outcome \<open>out\<close>.
  \<^item> \<open>PositionFound k latitude longitude now\<close>: the success callback of
    \<^verbatim>\<open>getCurrentPosition\<close>, with the two coordinates as the template string prints them.
  \<^item> \<open>PositionFailed k message now\<close>: its error callback, with \<^verbatim>\<open>error.message\<close>.
\<close>

datatype Event =
    InitChat bool
  | NewChat bool bool
  | Submit jsstring "File option" nat
  | ClickOption nat nat bool nat
  | FileLoaded nat jsstring nat
  | FileFailed nat nat
  | StreamEnded nat StreamOutcome nat
  | PositionFound nat jsstring jsstring nat
  | PositionFailed nat jsstring nat

definition without :: "nat \<Rightarrow> 'a list \<Rightarrow> 'a list" where
  "without k xs = take k xs @ drop (Suc k) xs"

fun resume :: "Pending \<Rightarrow> Event \<Rightarrow> App \<Rightarrow> App" where
  "resume (ReadingFile text img url) (FileLoaded k base64 now) s =
     callStream text (Some \<lparr>mimeType = file_type img, data = base64\<rparr>) url now
       (s\<lparr>pending := without k (pending s)\<rparr>)"
| "resume (ReadingFile text img url) (FileFailed k now) s =
     finishSend (Inl FileReadFailure) url now (s\<lparr>pending := without k (pending s)\<rparr>)"
| "resume (Streaming parts url) (StreamEnded k out now) s =
     finishSend (streamResponse_end out) url now (s\<lparr>pending := without k (pending s)\<rparr>)"
| "resume _ _ s = s"

fun step :: "Event \<Rightarrow> App \<Rightarrow> App" where
  "step (InitChat created) s = initChat created s"
| "step (NewChat confirmed created) s = handleNewChat confirmed created s"
| "step (Submit text img now) s = handleSend text img now s"
| "step (ClickOption i j geo now) s = clickOption i j geo now s"
| "step (FileLoaded k base64 now) s =
     (if k < length (pending s) then resume (pending s ! k) (FileLoaded k base64 now) s else s)"
| "step (FileFailed k now) s =
     (if k < length (pending s) then resume (pending s ! k) (FileFailed k now) s else s)"
| "step (StreamEnded k out now) s =
     (if k < length (pending s) then resume (pending s ! k) (StreamEnded k out now) s else s)"
| "step (PositionFound k latitude longitude now) s =
     (if k < length (locating s)
      then positionCallback (locating s ! k) (locationPrompt latitude longitude) now
             (s\<lparr>locating := without k (locating s)\<rparr>)
      else s)"
| "step (PositionFailed k message now) s =
     (if k < length (locating s)
      then positionCallback (locating s ! k) (errorPrompt message) now
             (s\<lparr>locating := without k (locating s)\<rparr>)
      else s)"

definition run :: "Event list \<Rightarrow> App \<Rightarrow> App" where
  "run evs s = foldl (\<lambda>s e. step e s) s evs"

section \<open>Properties and scenarios\<close>

text \<open>
  The shape the specification gives the payload of a clarifying question: an object whose
  \<^verbatim>\<open>question\<close> is a non-empty string and whose \<^verbatim>\<open>options\<close> is a sequence of at least one
  string.
\<close>

definition isJStr :: "json \<Rightarrow> bool" where
  "isJStr v = (case v of JStr t \<Rightarrow> True | _ \<Rightarrow> False)"

definition specShape :: "json \<Rightarrow> bool" where
  "specShape v =
     (case v of
        JObj ms \<Rightarrow>
          (case (map_of (rev ms) (str ''question''), map_of (rev ms) (str ''options'')) of
             (Some (JStr q), Some (JArr opts)) \<Rightarrow> q \<noteq> [] \<and> opts \<noteq> [] \<and> list_all isJStr opts
           | _ \<Rightarrow> False)
      | _ \<Rightarrow> False)"

text \<open>
  The invariant of a message as the specification states it (\<^verbatim>\<open>options\<close> non-empty exactly
  when \<^verbatim>\<open>isQuestion\<close> is true), and as the store keeps it (\<^verbatim>\<open>options\<close> present exactly when
  \<^verbatim>\<open>isQuestion\<close> is true).
\<close>

definition claimedOk :: "Message \<Rightarrow> bool" where
  "claimedOk m =
     ((case options m of None \<Rightarrow> False | Some opts \<Rightarrow> opts \<noteq> []) = (isQuestion m = Some True))"

definition okMessage :: "Message \<Rightarrow> bool" where
  "okMessage m = ((options m \<noteq> None) = (isQuestion m = Some True))"

text \<open>
  What holds of every state the application reaches: the \<^verbatim>\<open>handleSendMessage\<close> held by a
  geolocation callback saw \<^verbatim>\<open>isLoading\<close> false (an option button is disabled while loading),
  and a chat session exists as soon as a question, a request to the model or a
  geolocation request does.
\<close>

definition isStreaming :: "Pending \<Rightarrow> bool" where
  "isStreaming p = (case p of Streaming parts url \<Rightarrow> True | _ \<Rightarrow> False)"

definition sound :: "App \<Rightarrow> bool" where
  "sound s =
     ((\<forall>g \<in> set (locating s). \<not> capturedLoading g)
      \<and> (chat s \<or> (locating s = [] \<and> (\<forall>m \<in> set (messages s). isQuestion m \<noteq> Some True)
                     \<and> (\<forall>p \<in> set (pending s). \<not> isStreaming p))))"

text \<open>The advice text of the segmentation scenario (four numbered headings, no intro).\<close>

definition advice :: jsstring where
  "advice =
     str ''1. **Likely Condition:** This could be tension headache.'' @ [10]
     @ str ''2. **What to Do Now:** Rest and hydrate.'' @ [10]
     @ str ''3. **Diet & Lifestyle:** Reduce caffeine.'' @ [10]
     @ str ''4. **When to See a Doctor:** '' @ [8226] @ str '' Fever over 102'' @ [176] @ str ''F''"

text \<open>A run written back with the markers of its kind.\<close>

fun runSource :: "run \<Rightarrow> jsstring" where
  "runSource (PlainRun s) = s"
| "runSource (BoldRun s) = str ''**'' @ s @ str ''**''"
| "runSource (LinkRun d h) =
     str ''['' @ (case d of None \<Rightarrow> [] | Some x \<Rightarrow> x) @ str '']('' @ (case h of None \<Rightarrow> [] | Some x \<Rightarrow> x) @ str '')''"

text \<open>A reply of the model that is a question with an empty list of options.\<close>

definition emptyOptionsReply :: jsstring where
  "emptyOptionsReply = str ''{\"question\":\"q\",\"options\":[]}''"

text \<open>
  The fixed follow-up question of the system prompt, as the model sends it, and the
  states of a conversation around it: a first request in flight; the follow-up question
  received; the facility option selected and the position awaited.
\<close>

definition followUpReply :: jsstring where
  "followUpReply = str ''{\"question\": \"I hope this initial guidance is helpful. Should I continue to monitor, or would you like me to help you find a nearby medical facility for a professional opinion?\", \"options\": [\"I'll follow the advice for now.\", \"Help me find a facility.\"]}''"

definition followUpQuestion :: Message where
  "followUpQuestion =
     \<lparr>msg_id = str ''bot-2'', role = BOT,
      msg_text = str ''I hope this initial guidance is helpful. Should I continue to monitor, or would you like me to help you find a nearby medical facility for a professional opinion?'',
      imageUrl = None,
      options = Some [JStr (str ''I'll follow the advice for now.''), JStr (str ''Help me find a facility.'')],
      isQuestion = Some True\<rparr>"

definition busyState :: App where
  "busyState =
     \<lparr>messages = [greeting, plainMessage (str ''user-1'') USER (str ''hi'')],
      isLoading = True, isBotTyping = True, chat = True,
      pending = [Streaming [TextPart (str ''hi'')] None], locating = [], revoked = []\<rparr>"

definition followUpState :: App where
  "followUpState =
     \<lparr>messages = [greeting, plainMessage (str ''user-1'') USER (str ''hi''), followUpQuestion],
      isLoading = False, isBotTyping = False, chat = True, pending = [], locating = [],
      revoked = []\<rparr>"

text \<open>The same reply and state, had the model written the second option with capitals.\<close>

definition capitalsReply :: jsstring where
  "capitalsReply = str ''{\"question\": \"I hope this initial guidance is helpful. Should I continue to monitor, or would you like me to help you find a nearby medical facility for a professional opinion?\", \"options\": [\"I'll follow the advice for now.\", \"Help Me Find A Facility.\"]}''"

definition capitalsState :: App where
  "capitalsState =
     followUpState\<lparr>messages :=
       [greeting, plainMessage (str ''user-1'') USER (str ''hi''),
        followUpQuestion\<lparr>options :=
          Some [JStr (str ''I'll follow the advice for now.''), JStr (str ''Help Me Find A Facility.'')]\<rparr>]\<rparr>"

definition locatingState :: App where
  "locatingState =
     \<lparr>messages = [greeting, plainMessage (str ''user-1'') USER (str ''hi''), followUpQuestion,
                  plainMessage (str ''user-3'') USER (str ''Yes, help me find a facility.''),
                  plainMessage (str ''bot-locating-3'') BOT (str ''Got it. Finding your location...'')],
      isLoading = False, isBotTyping = False, chat = True, pending = [],
      locating = [\<lparr>locatingId = str ''bot-locating-3'', capturedLoading = False\<rparr>],
      revoked = []\<rparr>"

section \<open>Evaluation\<close>

lemmas string_eval = str_def lits_def isWhiteSpace_def isLineTerminator_def trim_def
  startsWith_def endsWith_def substring_def substringFrom_def clampIndex_def slice_def
  relIndex_def lastIndexOf_def indexOf_def jsincludes_def toLowerCase_def

lemmas regex_eval = split_def jsmatch_def group_def

lemmas render_eval = boldOrLink_def linkPattern_def formatPart_def FormattedText_def
  markerSource_def sectionMarker_def introPattern_def partSeparator_def titlePattern_def
  sectionOf_def findOutro_def splitIntro_def parseBotResponse_def List.map_filter_def

lemmas json_eval = isJsonSpace_def isDigit_def hexValue_def unescape_def lexEscape_def
  lexExponent_def lexFraction_def lexNumber_def JSON_parse_def checkShape_def tryParse_def
  cleanAndParseJson_def

lemmas app_eval = streamResponse_begin_def streamResponse_end_def initial_def plainMessage_def
  greeting_def initError_def initChat_def handleNewChat_def botResponse_def errorMessage_def
  finishSend_def callStream_def handleSendMessage_def handleSend_def handleLocationRequest_def
  locationPrompt_def errorPrompt_def positionCallback_def lastQuestion_def isLocationQuestion_def
  handleOptionClick_def optionEnabled_def clickOption_def without_def run_def decimal.simps Let_def

section \<open>The segmenter and the inline formatter\<close>

text \<open>
  C2. On the advice text of the scenario the segmenter does return a result with an empty
  outro, but not the four sections: \<^verbatim>\<open>sectionMarker\<close> starts with a line feed, so the
  heading that opens the text is not a heading for it. The first section is taken as the
  introduction, and three sections remain.
\<close>

theorem parseBotResponse_advice:
  "parseBotResponse advice =
     Inr (Some \<lparr>intro = str ''1. **Likely Condition:** This could be tension headache.'',
       sections =
         [\<lparr>title = str ''What to Do Now'', content = str ''Rest and hydrate.''\<rparr>,
          \<lparr>title = str ''Diet & Lifestyle'', content = str ''Reduce caffeine.''\<rparr>,
          \<lparr>title = str ''When to See a Doctor'',
           content = [8226] @ str '' Fever over 102'' @ [176] @ str ''F''\<rparr>],
       outro = []\<rparr>)"
  by (simp add: advice_def string_eval regex_eval render_eval)

text \<open>
  The same text after a line feed is segmented as intended: no introduction, the four
  sections, no outro. The heading pattern of the parts, \<^verbatim>\<open>/^\d+\.\s+\*\*(.*?):\*\*/\<close>, has
  no line feed; the one that finds the first heading has.
\<close>

lemma parseBotResponse_after_line_feed:
  "parseBotResponse ([10] @ advice) =
     Inr (Some \<lparr>intro = [],
       sections =
         [\<lparr>title = str ''Likely Condition'', content = str ''This could be tension headache.''\<rparr>,
          \<lparr>title = str ''What to Do Now'', content = str ''Rest and hydrate.''\<rparr>,
          \<lparr>title = str ''Diet & Lifestyle'', content = str ''Reduce caffeine.''\<rparr>,
          \<lparr>title = str ''When to See a Doctor'',
           content = [8226] @ str '' Fever over 102'' @ [176] @ str ''F''\<rparr>],
       outro = []\<rparr>)"
  by (simp add: advice_def string_eval regex_eval render_eval)

text \<open>
  C4. The input of three asterisks has no bold span and no link: the pattern of
  \<^verbatim>\<open>split\<close> needs two asterisks on each side. \<^verbatim>\<open>FormattedText\<close> still renders it as a bold
  run, because a part of two or three asterisks both starts and ends with two of them,
  and its content \<^verbatim>\<open>slice(2, -2)\<close> is empty: the text is lost, and writing the run back
  with its markers gives four asterisks.
\<close>

theorem FormattedText_three_stars:
  "FormattedText (str ''***'') = Inr [BoldRun []]
   \<and> concat (map runSource [BoldRun []]) = str ''****''"
  by (simp add: string_eval regex_eval render_eval)

text \<open>
  What holds of every text: one without an asterisk and without an opening bracket is
  returned as a single plain run.
\<close>

lemma boldOrLink_needs_marker:
  "x \<noteq> 42 \<Longrightarrow> x \<noteq> 91 \<Longrightarrow> rmatch boldOrLink q (x # xs) ([], []) = None"
  by (simp add: boldOrLink_def lits_def)

lemma boldOrLink_empty: "rmatch boldOrLink q [] ([], []) = None"
  by (simp add: boldOrLink_def lits_def)

lemma splitLoop_no_marker:
  "\<forall>x \<in> set s. x \<noteq> 42 \<and> x \<noteq> 91 \<Longrightarrow> splitLoop boldOrLink p q s cur = [Some (rev cur @ s)]"
  by (induction s arbitrary: q cur) (simp_all add: boldOrLink_needs_marker)

lemma linkPattern_needs_bracket: "91 \<notin> set s \<Longrightarrow> exec linkPattern i s = None"
proof (induction s arbitrary: i)
  case Nil
  then show ?case by (simp add: linkPattern_def lits_def)
next
  case (Cons x xs)
  then have "rmatch linkPattern i (x # xs) ([], []) = None"
    by (simp add: linkPattern_def lits_def)
  with Cons show ?case by simp
qed

lemma no_star_no_bold: "42 \<notin> set s \<Longrightarrow> \<not> startsWith s (str ''**'')"
proof
  assume a: "42 \<notin> set s" and b: "startsWith s (str ''**'')"
  from b have "take (Suc (Suc 0)) s = [42, 42]" by (simp add: startsWith_def str_def)
  then have "42 \<in> set (take (Suc (Suc 0)) s)" by simp
  then have "42 \<in> set s" by (rule in_set_takeD)
  with a show False by simp
qed

lemma FormattedText_plain:
  assumes "42 \<notin> set text" and "91 \<notin> set text"
  shows "FormattedText text = Inr [PlainRun text]"
proof -
  have part: "formatPart text = PlainRun text"
    using no_star_no_bold [OF assms(1)] linkPattern_needs_bracket [OF assms(2)]
    by (simp add: formatPart_def jsmatch_def)
  have "split text boldOrLink = [Some text]"
  proof (cases "text = []")
    case True
    then show ?thesis by (simp add: split_def boldOrLink_empty)
  next
    case False
    from assms have "\<forall>x \<in> set text. x \<noteq> 42 \<and> x \<noteq> 91" by auto
    from splitLoop_no_marker [OF this, of 0 0 "[]"] False show ?thesis
      by (simp add: split_def)
  qed
  with part show ?thesis by (simp add: FormattedText_def)
qed

section \<open>The response classifier\<close>

lemma emptyOptions_classified: "cleanAndParseJson emptyOptionsReply = Some (str ''q'', [])"
  by (simp add: emptyOptionsReply_def string_eval json_eval)

text \<open>
  A reply whose \<^verbatim>\<open>options\<close> is the empty array parses, fails the shape of the
  specification, and is still classified as a clarifying question.
\<close>

theorem classify_empty_options:
  "JSON_parse emptyOptionsReply =
     Inr (JObj [(str ''question'', JStr (str ''q'')), (str ''options'', JArr [])])
   \<and> \<not> specShape (JObj [(str ''question'', JStr (str ''q'')), (str ''options'', JArr [])])
   \<and> cleanAndParseJson emptyOptionsReply = Some (str ''q'', [])"
  by (simp add: emptyOptionsReply_def string_eval json_eval specShape_def)

lemma checkShape_Some:
  "checkShape parsed = Inr (Some (q, opts)) \<longleftrightarrow>
     (\<exists>ms. parsed = JObj ms \<and> map_of (rev ms) (str ''question'') = Some (JStr q) \<and> q \<noteq> []
        \<and> map_of (rev ms) (str ''options'') = Some (JArr opts))"
  by (cases parsed) (auto simp: checkShape_def split: option.splits json.splits if_splits)

text \<open>
  C1, amended. \<^verbatim>\<open>cleanAndParseJson\<close> yields a clarifying question with the payload
  \<open>(q, opts)\<close> exactly when the text has a first opening and a last closing brace in
  this order, the substring from one to the other parses as a JSON object, its
  \<^verbatim>\<open>question\<close> is the non-empty string \<open>q\<close> and its \<^verbatim>\<open>options\<close> is the array \<open>opts\<close>, of any
  length and with elements of any kind. Every other text yields no question (the advice
  case), and no exception leaves the function: a syntax error and a type error both end
  in the result \<open>None\<close>.
\<close>

theorem cleanAndParseJson_iff:
  "cleanAndParseJson text = Some (q, opts) \<longleftrightarrow>
     (indexOf text (str ''{'') \<noteq> - 1 \<and> lastIndexOf text (str ''}'') \<noteq> - 1
      \<and> indexOf text (str ''{'') \<le> lastIndexOf text (str ''}'')
      \<and> (\<exists>ms. JSON_parse (substring text (indexOf text (str ''{''))
                              (lastIndexOf text (str ''}'') + 1)) = Inr (JObj ms)
             \<and> map_of (rev ms) (str ''question'') = Some (JStr q) \<and> q \<noteq> []
             \<and> map_of (rev ms) (str ''options'') = Some (JArr opts)))"
proof -
  let ?sub = "substring text (indexOf text (str ''{'')) (lastIndexOf text (str ''}'') + 1)"
  have "tryParse ?sub = Inr (Some (q, opts)) \<longleftrightarrow>
        (\<exists>ms. JSON_parse ?sub = Inr (JObj ms)
           \<and> map_of (rev ms) (str ''question'') = Some (JStr q) \<and> q \<noteq> []
           \<and> map_of (rev ms) (str ''options'') = Some (JArr opts))"
    by (cases "JSON_parse ?sub") (auto simp: tryParse_def checkShape_Some)
  then show ?thesis
    by (auto simp: cleanAndParseJson_def Let_def split: sum.splits)
qed

text \<open>A payload of the shape of the specification is accepted.\<close>

lemma specShape_accepted:
  assumes "specShape parsed"
  shows "\<exists>q opts. checkShape parsed = Inr (Some (q, opts)) \<and> q \<noteq> [] \<and> opts \<noteq> []
     \<and> list_all isJStr opts"
  using assms
  by (auto simp: specShape_def checkShape_def split: json.splits option.splits)

section \<open>The message store\<close>

lemma ok_plain: "okMessage (plainMessage i r t)"
  by (simp add: okMessage_def plainMessage_def)

lemma ok_botResponse: "okMessage (botResponse t now)"
  by (simp add: okMessage_def botResponse_def plainMessage_def split: option.splits)

lemma ok_errorMessage: "okMessage (errorMessage now)"
  by (simp add: errorMessage_def ok_plain)

lemma ok_finishSend:
  "list_all okMessage (messages s) \<Longrightarrow> list_all okMessage (messages (finishSend r url now s))"
  by (cases r) (simp_all add: finishSend_def ok_botResponse ok_errorMessage)

lemma ok_callStream:
  "list_all okMessage (messages s) \<Longrightarrow> list_all okMessage (messages (callStream t i url now s))"
  by (cases "streamResponse_begin (chat s) t i") (simp_all add: callStream_def ok_finishSend)

lemma ok_handleSendMessage:
  assumes "list_all okMessage (messages s)"
  shows "list_all okMessage (messages (handleSendMessage c t img h now s))"
  using assms
  by (cases img; cases h; cases c; cases "trim t = []")
     (simp_all add: handleSendMessage_def Let_def okMessage_def [of "\<lparr>msg_id = _, role = _, msg_text = _, imageUrl = _, options = _, isQuestion = _\<rparr>"] ok_callStream)

lemma ok_handleLocationRequest:
  "list_all okMessage (messages s) \<Longrightarrow>
     list_all okMessage (messages (handleLocationRequest c geo now s))"
  by (simp add: handleLocationRequest_def Let_def ok_handleSendMessage ok_plain)

lemma ok_handleOptionClick:
  "list_all okMessage (messages s) \<Longrightarrow>
     list_all okMessage (messages (handleOptionClick c t geo now s))"
  by (simp add: handleOptionClick_def ok_handleSendMessage ok_handleLocationRequest)

lemma ok_clickOption:
  "list_all okMessage (messages s) \<Longrightarrow> list_all okMessage (messages (clickOption i j geo now s))"
  by (simp add: clickOption_def Let_def ok_handleOptionClick split: option.splits json.splits)

lemma ok_positionCallback:
  assumes "list_all okMessage (messages s)"
  shows "list_all okMessage (messages (positionCallback g p now s))"
proof -
  have "list_all okMessage (filter (\<lambda>m. msg_id m \<noteq> locatingId g) (messages s))"
    using assms by (simp add: list_all_iff)
  then show ?thesis
    unfolding positionCallback_def by (intro ok_handleSendMessage) simp
qed

lemma ok_resume:
  "list_all okMessage (messages s) \<Longrightarrow> list_all okMessage (messages (resume p e s))"
  by (induction p e s rule: resume.induct) (simp_all add: ok_callStream ok_finishSend)

lemma ok_step:
  assumes "list_all okMessage (messages s)"
  shows "list_all okMessage (messages (step e s))"
proof (cases e)
  case (InitChat c)
  then show ?thesis using assms by (simp add: initChat_def greeting_def initError_def ok_plain)
next
  case (NewChat a b)
  then show ?thesis using assms
    by (simp add: handleNewChat_def initChat_def greeting_def initError_def ok_plain)
next
  case (Submit t img now)
  then show ?thesis using assms by (simp add: handleSend_def ok_handleSendMessage)
next
  case (ClickOption i j geo now)
  then show ?thesis using assms by (simp add: ok_clickOption)
next
  case (FileLoaded k b now)
  then show ?thesis using assms by (simp add: ok_resume)
next
  case (FileFailed k now)
  then show ?thesis using assms by (simp add: ok_resume)
next
  case (StreamEnded k out now)
  then show ?thesis using assms by (simp add: ok_resume)
next
  case (PositionFound k la lo now)
  then show ?thesis using assms ok_positionCallback [of "s\<lparr>locating := without k (locating s)\<rparr>"]
    by simp
next
  case (PositionFailed k msg now)
  then show ?thesis using assms ok_positionCallback [of "s\<lparr>locating := without k (locating s)\<rparr>"]
    by simp
qed

lemma ok_run: "list_all okMessage (messages s) \<Longrightarrow> list_all okMessage (messages (run evs s))"
  unfolding run_def by (induction evs arbitrary: s) (simp_all add: ok_step)

text \<open>
  After the model answers with a question whose \<^verbatim>\<open>options\<close> is the empty array, the store
  holds a message with \<^verbatim>\<open>isQuestion\<close> true and no option.
\<close>

theorem empty_options_stored:
  "last (messages (run [InitChat True, Submit (str ''hi'') None 1,
                        StreamEnded 0 (Chunks [Some emptyOptionsReply]) 2] initial))
     = \<lparr>msg_id = str ''bot-2'', role = BOT, msg_text = str ''q'', imageUrl = None,
        options = Some [], isQuestion = Some True\<rparr>
   \<and> \<not> claimedOk (last (messages (run [InitChat True, Submit (str ''hi'') None 1,
                        StreamEnded 0 (Chunks [Some emptyOptionsReply]) 2] initial)))"
proof -
  have nonblank: "trim emptyOptionsReply \<noteq> []"
    by (simp add: emptyOptionsReply_def string_eval)
  have "run [InitChat True, Submit (str ''hi'') None 1] initial = busyState"
    by (simp add: busyState_def app_eval string_eval)
  then have "last (messages (run [InitChat True, Submit (str ''hi'') None 1,
                        StreamEnded 0 (Chunks [Some emptyOptionsReply]) 2] initial))
     = \<lparr>msg_id = str ''bot-2'', role = BOT, msg_text = str ''q'', imageUrl = None,
        options = Some [], isQuestion = Some True\<rparr>"
    using nonblank
    by (simp add: run_def busyState_def without_def finishSend_def botResponse_def
        emptyOptions_classified streamResponse_end_def str_def decimal.simps)
  then show ?thesis by (simp add: claimedOk_def)
qed

text \<open>
  C3, amended. In every state the application reaches, whatever the events (the greeting
  or the error of the initialisation, a submission, a question or an advice of the
  assistant, a system error, the placeholder of the facility lookup), each message of the
  store has \<^verbatim>\<open>options\<close> present exactly when its \<^verbatim>\<open>isQuestion\<close> is true. The options of a
  question may be the empty sequence.
\<close>

theorem options_iff_isQuestion: "list_all okMessage (messages (run evs initial))"
  by (rule ok_run) (simp add: initial_def)

section \<open>The controller\<close>

subsection \<open>Reachable states\<close>

lemma set_without: "set (without k xs) \<subseteq> set xs"
  unfolding without_def by (auto dest: in_set_takeD in_set_dropD)

lemma sound_without_pending: "sound s \<Longrightarrow> sound (s\<lparr>pending := without k (pending s)\<rparr>)"
  using set_without [of k "pending s"] by (auto simp: sound_def)

lemma sound_without_locating: "sound s \<Longrightarrow> sound (s\<lparr>locating := without k (locating s)\<rparr>)"
  using set_without [of k "locating s"] by (auto simp: sound_def)

lemma isQuestion_errorMessage [simp]: "isQuestion (errorMessage now) = None"
  by (simp add: errorMessage_def plainMessage_def)

lemma sound_finishSend_error: "sound s \<Longrightarrow> sound (finishSend (Inl e) url now s)"
  by (auto simp: sound_def finishSend_def)

lemma sound_finishSend_chat: "sound s \<Longrightarrow> chat s \<Longrightarrow> sound (finishSend r url now s)"
  by (auto simp: sound_def finishSend_def)

lemma sound_callStream:
  assumes "sound s"
  shows "sound (callStream t i url now s)"
proof (cases "streamResponse_begin (chat s) t i")
  case (Threw e)
  with assms show ?thesis by (simp add: callStream_def sound_finishSend_error)
next
  case (Returned r)
  then have "chat s" by (auto simp: streamResponse_begin_def split: if_splits)
  with assms Returned show ?thesis by (simp add: callStream_def sound_finishSend_chat)
next
  case (Sent parts)
  then have "chat s" by (auto simp: streamResponse_begin_def split: if_splits)
  with assms Sent show ?thesis by (auto simp: callStream_def sound_def)
qed

lemma sound_handleSendMessage:
  assumes "sound s"
  shows "sound (handleSendMessage c t img h now s)"
proof -
  have a: "\<And>ms. \<forall>m \<in> set ms. isQuestion m = None \<Longrightarrow>
      sound (s\<lparr>isLoading := True, messages := messages s @ ms, isBotTyping := True\<rparr>)"
    using assms by (auto simp: sound_def)
  have b: "\<And>ms p. \<forall>m \<in> set ms. isQuestion m = None \<Longrightarrow> \<not> isStreaming p \<Longrightarrow>
      sound (s\<lparr>isLoading := True, messages := messages s @ ms, isBotTyping := True,
               pending := pending s @ [p]\<rparr>)"
    using assms by (auto simp: sound_def)
  show ?thesis
    using assms
    by (cases img; cases h; cases c; cases "trim t = []")
       (simp_all add: handleSendMessage_def Let_def sound_callStream a [of "[]", simplified]
          a [of "[m]" for m, simplified] b [of "[]", simplified] b [of "[m]" for m, simplified]
          isStreaming_def)
qed

lemma sound_positionCallback:
  assumes "sound s" and "g \<in> set (locating s)"
  shows "sound (positionCallback g p now (s\<lparr>locating := without k (locating s)\<rparr>))"
proof -
  have "sound (s\<lparr>locating := without k (locating s),
      messages := filter (\<lambda>m. msg_id m \<noteq> locatingId g) (messages s)\<rparr>)"
    using assms(1) set_without [of k "locating s"] by (auto simp: sound_def)
  then show ?thesis
    unfolding positionCallback_def using sound_handleSendMessage by simp
qed

lemma sound_clickOption:
  assumes "sound s"
  shows "sound (clickOption i j geo now s)"
proof (cases "i < length (messages s) \<and> isQuestion (messages s ! i) = Some True \<and> \<not> isLoading s")
  case False
  with assms show ?thesis
    by (auto simp: clickOption_def optionEnabled_def Let_def split: option.splits json.splits)
next
  case True
  then have "messages s ! i \<in> set (messages s)" by simp
  with True assms have chat: "chat s" by (auto simp: sound_def)
  have loc: "sound (handleLocationRequest False geo now s)"
  proof (cases geo)
    case True
    with assms chat show ?thesis
      by (auto simp: handleLocationRequest_def Let_def sound_def plainMessage_def)
  next
    case False
    with assms show ?thesis
      by (simp add: handleLocationRequest_def sound_handleSendMessage)
  qed
  have "\<And>t. sound (handleOptionClick False t geo now s)"
    using loc assms by (simp add: handleOptionClick_def sound_handleSendMessage)
  with True assms show ?thesis
    by (auto simp: clickOption_def Let_def split: option.splits json.splits)
qed

lemma sound_resume:
  assumes "sound s" and "k < length (pending s)" and "p = pending s ! k"
    and "e = FileLoaded k b now \<or> e = FileFailed k now \<or> e = StreamEnded k out now"
  shows "sound (resume p e s)"
proof (cases p)
  case (ReadingFile t f url)
  with assms(1,4) sound_without_pending [OF assms(1), of k] show ?thesis
    by (auto simp: sound_callStream sound_finishSend_error)
next
  case (Streaming parts url)
  with assms(3) have "pending s ! k = Streaming parts url" by simp
  with assms(2) nth_mem [of k "pending s"]
  have "isStreaming (pending s ! k)" "pending s ! k \<in> set (pending s)"
    by (simp_all add: isStreaming_def)
  with assms(1) have "chat s" by (auto simp: sound_def)
  with Streaming assms(1,4) sound_without_pending [OF assms(1), of k] show ?thesis
    by (auto simp: sound_finishSend_chat)
qed

lemma sound_step:
  assumes "sound s"
  shows "sound (step e s)"
proof (cases e)
  case (InitChat c)
  with assms show ?thesis
    by (auto simp: initChat_def sound_def greeting_def initError_def plainMessage_def)
next
  case (NewChat a b)
  with assms show ?thesis
    by (auto simp: handleNewChat_def initChat_def sound_def greeting_def initError_def
        plainMessage_def)
next
  case (Submit t img now)
  with assms show ?thesis by (simp add: handleSend_def sound_handleSendMessage)
next
  case (ClickOption i j geo now)
  with assms show ?thesis by (simp add: sound_clickOption)
next
  case (FileLoaded k b now)
  with assms sound_resume [OF assms, of k _ _ b now] show ?thesis by simp
next
  case (FileFailed k now)
  with assms sound_resume [OF assms, of k _ _ _ now] show ?thesis by simp
next
  case (StreamEnded k out now)
  with assms sound_resume [OF assms, of k _ _ _ now out] show ?thesis by simp
next
  case (PositionFound k la lo now)
  with assms sound_positionCallback [OF assms, of "locating s ! k"] show ?thesis by simp
next
  case (PositionFailed k msg now)
  with assms sound_positionCallback [OF assms, of "locating s ! k"] show ?thesis by simp
qed

lemma sound_run: "sound s \<Longrightarrow> sound (run evs s)"
  unfolding run_def by (induction evs arbitrary: s) (simp_all add: sound_step)

lemma sound_initial: "sound initial"
  by (simp add: sound_def initial_def)

lemma trim_nonblank: "\<not> isWhiteSpace c \<Longrightarrow> trim (c # r) \<noteq> []"
  by (auto simp: trim_def dropWhile_eq_Nil_conv)

lemma errorPrompt_nonblank: "trim (errorPrompt message) \<noteq> []"
proof -
  have "\<exists>r. errorPrompt message = 84 # r"
    by (simp add: errorPrompt_def str_def)
  then obtain r where "errorPrompt message = 84 # r" ..
  moreover have "\<not> isWhiteSpace 84" by (simp add: isWhiteSpace_def)
  ultimately show ?thesis using trim_nonblank [of 84 r] by simp
qed

lemma busy_reached: "run [InitChat True, Submit (str ''hi'') None 1] initial = busyState"
  by (simp add: busyState_def app_eval string_eval)

lemma followUp_parsed:
  "cleanAndParseJson followUpReply =
     Some (str ''I hope this initial guidance is helpful. Should I continue to monitor, or would you like me to help you find a nearby medical facility for a professional opinion?'',
           [JStr (str ''I'll follow the advice for now.''), JStr (str ''Help me find a facility.'')])"
  by (simp add: followUpReply_def string_eval json_eval)

lemma followUp_reached:
  "run [InitChat True, Submit (str ''hi'') None 1, StreamEnded 0 (Chunks [Some followUpReply]) 2]
     initial = followUpState"
proof -
  have nonblank: "trim followUpReply \<noteq> []"
    by (simp add: followUpReply_def string_eval)
  have "run [InitChat True, Submit (str ''hi'') None 1] initial = busyState"
    by (rule busy_reached)
  then show ?thesis
    using nonblank
    by (simp add: run_def busyState_def without_def finishSend_def botResponse_def
        followUp_parsed streamResponse_end_def followUpState_def followUpQuestion_def str_def
        decimal.simps)
qed

lemma capitals_reached:
  "run [InitChat True, Submit (str ''hi'') None 1, StreamEnded 0 (Chunks [Some capitalsReply]) 2]
     initial = capitalsState"
proof -
  have nonblank: "trim capitalsReply \<noteq> []"
    by (simp add: capitalsReply_def string_eval)
  have parsed: "cleanAndParseJson capitalsReply =
     Some (str ''I hope this initial guidance is helpful. Should I continue to monitor, or would you like me to help you find a nearby medical facility for a professional opinion?'',
           [JStr (str ''I'll follow the advice for now.''), JStr (str ''Help Me Find A Facility.'')])"
    by (simp add: capitalsReply_def string_eval json_eval)
  have "run [InitChat True, Submit (str ''hi'') None 1] initial = busyState"
    by (rule busy_reached)
  then show ?thesis
    using nonblank
    by (simp add: run_def busyState_def without_def finishSend_def botResponse_def
        parsed streamResponse_end_def capitalsState_def followUpState_def followUpQuestion_def
        str_def decimal.simps)
qed

lemma followUp_isLocationQuestion: "isLocationQuestion (messages followUpState)"
  by (simp add: followUpState_def followUpQuestion_def isLocationQuestion_def lastQuestion_def
      string_eval)

lemma facility_option_lower:
  "jsincludes (toLowerCase (str ''Help me find a facility.'')) (str ''find a facility'')"
  by (simp add: string_eval)

lemma decimal_3: "decimal 3 = str ''3''"
  by (simp add: decimal.simps str_def)

lemma locating_step: "step (ClickOption 2 1 True 3) followUpState = locatingState"
proof -
  have b: "handleOptionClick False (str ''Help me find a facility.'') True 3 followUpState
      = locatingState"
    using facility_option_lower followUp_isLocationQuestion
    by (simp add: handleOptionClick_def handleLocationRequest_def Let_def decimal_3
        followUpState_def locatingState_def plainMessage_def str_def)
  show ?thesis
    using b
    by (simp add: clickOption_def optionEnabled_def Let_def followUpState_def followUpQuestion_def
        greeting_def plainMessage_def)
qed

lemma locating_reached:
  "locatingState =
     run [InitChat True, Submit (str ''hi'') None 1, StreamEnded 0 (Chunks [Some followUpReply]) 2,
          ClickOption 2 1 True 3] initial"
proof -
  have "run ([InitChat True, Submit (str ''hi'') None 1,
              StreamEnded 0 (Chunks [Some followUpReply]) 2] @ [ClickOption 2 1 True 3]) initial
      = step (ClickOption 2 1 True 3) followUpState"
    unfolding run_def foldl_append using followUp_reached by (simp add: run_def)
  then show ?thesis using locating_step by simp
qed

subsection \<open>The busy flag\<close>

text \<open>While the flag is set, a submission from the input box or an option button does nothing.\<close>

lemma busy_submission_dropped:
  "isLoading s \<Longrightarrow>
     step (Submit t img now) s = s \<and> step (ClickOption i j geo now) s = s
     \<and> handleSendMessage (isLoading s) t img h now s = s"
  by (simp add: handleSend_def handleSendMessage_def clickOption_def optionEnabled_def Let_def
      split: option.splits)

text \<open>
  C5. Two requests to the model can be in flight at once. First: a message is sent, the
  user starts a new chat while the answer is awaited (\<^verbatim>\<open>initChat\<close> ends with
  \<^verbatim>\<open>setIsLoading(false)\<close>), and sends again. Second: the facility option was selected and
  the position is awaited (the flag is not set, the input box is open); the user sends a
  message, the flag is set; the position arrives, and its callback submits the hidden
  prompt through the \<^verbatim>\<open>handleSendMessage\<close> it captured, whose \<^verbatim>\<open>isLoading\<close> is still false.
\<close>

theorem two_requests_in_flight:
  "pending (run [InitChat True, Submit (str ''hi'') None 1, NewChat True True,
                 Submit (str ''yo'') None 2] initial)
     = [Streaming [TextPart (str ''hi'')] None, Streaming [TextPart (str ''yo'')] None]
   \<and> isLoading (step (Submit (str ''hello'') None 4) locatingState)
   \<and> pending (step (Submit (str ''hello'') None 4) locatingState)
     = [Streaming [TextPart (str ''hello'')] None]
   \<and> pending (run [Submit (str ''hello'') None 4, PositionFound 0 (str ''1.5'') (str ''2.5'') 5]
                locatingState)
     = [Streaming [TextPart (str ''hello'')] None,
        Streaming [TextPart (locationPrompt (str ''1.5'') (str ''2.5''))] None]"
proof -
  have a: "pending (run [InitChat True, Submit (str ''hi'') None 1, NewChat True True,
                 Submit (str ''yo'') None 2] initial)
     = [Streaming [TextPart (str ''hi'')] None, Streaming [TextPart (str ''yo'')] None]"
    by (simp add: app_eval string_eval)
  have b: "step (Submit (str ''hello'') None 4) locatingState =
      locatingState\<lparr>isLoading := True,
        messages := messages locatingState @ [plainMessage (str ''user-4'') USER (str ''hello'')],
        isBotTyping := True,
        pending := [Streaming [TextPart (str ''hello'')] None]\<rparr>"
    by (simp add: locatingState_def app_eval string_eval)
  have c: "trim (locationPrompt (str ''1.5'') (str ''2.5'')) \<noteq> []"
    using trim_nonblank [of 84] by (simp add: locationPrompt_def str_def isWhiteSpace_def)
  have d: "pending (step (PositionFound 0 (str ''1.5'') (str ''2.5'') 5)
             (step (Submit (str ''hello'') None 4) locatingState))
     = [Streaming [TextPart (str ''hello'')] None,
        Streaming [TextPart (locationPrompt (str ''1.5'') (str ''2.5''))] None]"
    unfolding b using c
    by (simp add: locatingState_def positionCallback_def handleSendMessage_def callStream_def
        streamResponse_begin_def without_def Let_def)
  from a b d show ?thesis by (simp add: run_def)
qed

subsection \<open>Failures of the model\<close>

lemma find_append_none: "\<forall>x \<in> set xs. \<not> P x \<Longrightarrow> find P (xs @ ys) = find P ys"
  by (induction xs) simp_all

lemma lastQuestion_append_others:
  "\<forall>m \<in> set ms'. \<not> (role m = BOT \<and> isQuestion m = Some True) \<Longrightarrow>
     lastQuestion (ms @ ms') = lastQuestion ms"
  unfolding lastQuestion_def rev_append by (rule find_append_none) simp

lemma errorMessage_fields:
  "role (errorMessage now) = SYSTEM
   \<and> msg_text (errorMessage now) = str ''Sorry, something went wrong. Please try again.''"
  by (simp add: errorMessage_def plainMessage_def)

lemma file_failure_reported:
  assumes "k < length (pending s)" and "pending s ! k = ReadingFile t f url"
  shows "messages (step (FileFailed k now) s) = messages s @ [errorMessage now]
     \<and> \<not> isLoading (step (FileFailed k now) s)"
  using assms by (simp add: finishSend_def)

text \<open>
  C6. When the request \<open>k\<close> to the model fails, the store gains exactly one message, the
  system notice "Sorry, something went wrong. Please try again.", and the question that
  the controller takes for the current one (the phase) is the same as before. However the
  request ends (failure, text, or no text at all), exactly one message is appended and
  the busy flag and the typing flag are released. When the service throws at the call,
  for want of a chat session, the same notice is appended after the user's message (if
  the submission is not hidden), and the flag is released.
\<close>

theorem failure_reported_and_flag_released:
  "(k < length (pending s) \<and> pending s ! k = Streaming parts url \<longrightarrow>
      messages (step (StreamEnded k StreamFailed now) s) = messages s @ [errorMessage now]
    \<and> lastQuestion (messages (step (StreamEnded k StreamFailed now) s)) = lastQuestion (messages s)
    \<and> length (messages (step (StreamEnded k out now) s)) = Suc (length (messages s))
    \<and> \<not> isLoading (step (StreamEnded k out now) s)
    \<and> \<not> isBotTyping (step (StreamEnded k out now) s))
   \<and> (\<not> chat s \<and> trim t \<noteq> [] \<longrightarrow>
      messages (handleSendMessage False t None h now s)
        = messages s @ (if h then [] else [plainMessage (str ''user-'' @ decimal now) USER t])
          @ [errorMessage now]
    \<and> lastQuestion (messages (handleSendMessage False t None h now s)) = lastQuestion (messages s)
    \<and> \<not> isLoading (handleSendMessage False t None h now s))
   \<and> role (errorMessage now) = SYSTEM
   \<and> msg_text (errorMessage now) = str ''Sorry, something went wrong. Please try again.''"
proof -
  have a: "k < length (pending s) \<and> pending s ! k = Streaming parts url \<longrightarrow>
      messages (step (StreamEnded k StreamFailed now) s) = messages s @ [errorMessage now]
    \<and> lastQuestion (messages (step (StreamEnded k StreamFailed now) s)) = lastQuestion (messages s)
    \<and> length (messages (step (StreamEnded k out now) s)) = Suc (length (messages s))
    \<and> \<not> isLoading (step (StreamEnded k out now) s)
    \<and> \<not> isBotTyping (step (StreamEnded k out now) s)"
    by (simp add: finishSend_def streamResponse_end_def errorMessage_fields
        lastQuestion_append_others)
  have u: "lastQuestion (messages s @ [plainMessage (str ''user-'' @ decimal now) USER t,
        errorMessage now]) = lastQuestion (messages s)"
    by (rule lastQuestion_append_others) (simp add: plainMessage_def errorMessage_fields)
  have v: "lastQuestion (messages s @ [errorMessage now]) = lastQuestion (messages s)"
    by (rule lastQuestion_append_others) (simp add: errorMessage_fields)
  have b: "\<not> chat s \<and> trim t \<noteq> [] \<longrightarrow>
      messages (handleSendMessage False t None h now s)
        = messages s @ (if h then [] else [plainMessage (str ''user-'' @ decimal now) USER t])
          @ [errorMessage now]
    \<and> lastQuestion (messages (handleSendMessage False t None h now s)) = lastQuestion (messages s)
    \<and> \<not> isLoading (handleSendMessage False t None h now s)"
    using u v
    by (cases h)
       (simp_all add: handleSendMessage_def callStream_def streamResponse_begin_def
          finishSend_def Let_def plainMessage_def)
  from a b errorMessage_fields show ?thesis by blast
qed

theorem failure_reported_witness:
  "0 < length (pending busyState)
   \<and> pending busyState ! 0 = Streaming [TextPart (str ''hi'')] None
   \<and> messages (step (StreamEnded 0 StreamFailed 2) busyState) = messages busyState @ [errorMessage 2]
   \<and> \<not> isLoading (step (StreamEnded 0 (Chunks []) 2) busyState)
   \<and> \<not> chat initial \<and> trim (str ''hi'') \<noteq> []
   \<and> messages (handleSendMessage False (str ''hi'') None False 1 initial)
     = [plainMessage (str ''user-'' @ decimal 1) USER (str ''hi''), errorMessage 1]
   \<and> \<not> isLoading (handleSendMessage False (str ''hi'') None False 1 initial)"
proof -
  have h1: "0 < length (pending busyState) \<and> pending busyState ! 0 = Streaming [TextPart (str ''hi'')] None"
    by (simp add: busyState_def)
  have h2: "\<not> chat initial \<and> trim (str ''hi'') \<noteq> []"
    by (simp add: initial_def string_eval)
  have m: "messages initial = []" by (simp add: initial_def)
  from failure_reported_and_flag_released
      [of 0 busyState "[TextPart (str ''hi'')]" None 2 "Chunks []" "str ''hi''" False]
    failure_reported_and_flag_released
      [of 0 initial "[TextPart (str ''hi'')]" None 1 "Chunks []" "str ''hi''" False]
    h1 h2 m
  show ?thesis by simp
qed

subsection \<open>Option buttons\<close>

text \<open>
  C7. A click on an option of the message at index \<open>i\<close> changes nothing when that message
  is not the last of the store, hence when a more recent assistant message exists, and
  when a request is in flight: the options of a question act only while it is the latest
  message.
\<close>

theorem stale_option_inert:
  "(Suc i \<noteq> length (messages s) \<longrightarrow> step (ClickOption i j geo now) s = s)
   \<and> ((\<exists>k. i < k \<and> k < length (messages s) \<and> role (messages s ! k) = BOT)
        \<longrightarrow> step (ClickOption i j geo now) s = s)
   \<and> (isLoading s \<longrightarrow> step (ClickOption i j geo now) s = s)"
  by (auto simp: clickOption_def optionEnabled_def Let_def split: option.splits)

theorem stale_option_witness:
  "Suc 2 \<noteq> length (messages locatingState)
   \<and> 2 < (4::nat) \<and> 4 < length (messages locatingState)
   \<and> role (messages locatingState ! 4) = BOT
   \<and> step (ClickOption 2 1 True 9) locatingState = locatingState
   \<and> isLoading busyState
   \<and> step (ClickOption 1 0 True 9) busyState = busyState"
proof -
  have h: "Suc 2 \<noteq> length (messages locatingState)" by (simp add: locatingState_def)
  have k: "4 < length (messages locatingState)" "role (messages locatingState ! 4) = BOT"
    by (simp_all add: locatingState_def plainMessage_def)
  have l: "isLoading busyState" by (simp add: busyState_def)
  from stale_option_inert [of 2 locatingState 1 True 9]
    stale_option_inert [of 1 busyState 0 True 9] h k l
  show ?thesis by simp
qed

subsection \<open>Selecting an option\<close>

lemma lastQuestion_snoc:
  "lastQuestion (ms @ [m]) =
     (if role m = BOT \<and> isQuestion m = Some True then Some m else lastQuestion ms)"
  by (simp add: lastQuestion_def)

lemma lastQuestion_Some_iff:
  "lastQuestion ms = Some q \<longleftrightarrow>
     (\<exists>pre post. ms = pre @ q # post \<and> role q = BOT \<and> isQuestion q = Some True
        \<and> (\<forall>m \<in> set post. \<not> (role m = BOT \<and> isQuestion m = Some True)))"
proof (induction ms rule: rev_induct)
  case Nil
  then show ?case by (simp add: lastQuestion_def)
next
  case (snoc m ms)
  show ?case
  proof (cases "role m = BOT \<and> isQuestion m = Some True")
    case True
    have "(\<exists>pre post. ms @ [m] = pre @ q # post \<and> role q = BOT \<and> isQuestion q = Some True
        \<and> (\<forall>x \<in> set post. \<not> (role x = BOT \<and> isQuestion x = Some True))) \<longleftrightarrow> q = m"
    proof
      assume "\<exists>pre post. ms @ [m] = pre @ q # post \<and> role q = BOT \<and> isQuestion q = Some True
        \<and> (\<forall>x \<in> set post. \<not> (role x = BOT \<and> isQuestion x = Some True))"
      then obtain pre post where e: "ms @ [m] = pre @ q # post"
        and n: "\<forall>x \<in> set post. \<not> (role x = BOT \<and> isQuestion x = Some True)" by blast
      show "q = m"
      proof (cases post rule: rev_cases)
        case Nil
        with e show ?thesis by simp
      next
        case (snoc post' x)
        with e have "x = m" by (metis append_Cons append_assoc last_snoc)
        with snoc n True show ?thesis by simp
      qed
    next
      assume "q = m"
      with True show "\<exists>pre post. ms @ [m] = pre @ q # post \<and> role q = BOT \<and> isQuestion q = Some True
        \<and> (\<forall>x \<in> set post. \<not> (role x = BOT \<and> isQuestion x = Some True))"
        by (intro exI [of _ ms] exI [of _ "[]"]) simp
    qed
    with True show ?thesis by (auto simp: lastQuestion_snoc)
  next
    case False
    have eq: "(\<exists>pre post. ms @ [m] = pre @ q # post \<and> role q = BOT \<and> isQuestion q = Some True
        \<and> (\<forall>x \<in> set post. \<not> (role x = BOT \<and> isQuestion x = Some True)))
      \<longleftrightarrow> (\<exists>pre post. ms = pre @ q # post \<and> role q = BOT \<and> isQuestion q = Some True
        \<and> (\<forall>x \<in> set post. \<not> (role x = BOT \<and> isQuestion x = Some True)))"
    proof
      assume "\<exists>pre post. ms @ [m] = pre @ q # post \<and> role q = BOT \<and> isQuestion q = Some True
        \<and> (\<forall>x \<in> set post. \<not> (role x = BOT \<and> isQuestion x = Some True))"
      then obtain pre post where e: "ms @ [m] = pre @ q # post"
        and q: "role q = BOT \<and> isQuestion q = Some True"
        and n: "\<forall>x \<in> set post. \<not> (role x = BOT \<and> isQuestion x = Some True)" by blast
      show "\<exists>pre post. ms = pre @ q # post \<and> role q = BOT \<and> isQuestion q = Some True
        \<and> (\<forall>x \<in> set post. \<not> (role x = BOT \<and> isQuestion x = Some True))"
      proof (cases post rule: rev_cases)
        case Nil
        with e have "q = m" by simp
        with q False show ?thesis by simp
      next
        case (snoc post' x)
        with e have "ms @ [m] = (pre @ q # post') @ [x]" by simp
        then have "ms = pre @ q # post'" by (metis butlast_snoc)
        with q n snoc show ?thesis by auto
      qed
    next
      assume "\<exists>pre post. ms = pre @ q # post \<and> role q = BOT \<and> isQuestion q = Some True
        \<and> (\<forall>x \<in> set post. \<not> (role x = BOT \<and> isQuestion x = Some True))"
      then obtain pre post where "ms = pre @ q # post"
        and "role q = BOT \<and> isQuestion q = Some True"
        and "\<forall>x \<in> set post. \<not> (role x = BOT \<and> isQuestion x = Some True)" by blast
      with False show "\<exists>pre post. ms @ [m] = pre @ q # post \<and> role q = BOT \<and> isQuestion q = Some True
        \<and> (\<forall>x \<in> set post. \<not> (role x = BOT \<and> isQuestion x = Some True))"
        by (intro exI [of _ pre] exI [of _ "post @ [m]"]) auto
    qed
    from False have l: "lastQuestion (ms @ [m]) = lastQuestion ms"
      by (auto simp: lastQuestion_snoc)
    show ?thesis unfolding l eq by (rule snoc.IH)
  qed
qed


lemma handleOptionClick_unfold:
  "handleOptionClick c optionText geo now s =
     (if jsincludes (toLowerCase optionText) (str ''find a facility'') \<and> isLocationQuestion (messages s)
      then (if geo
            then s\<lparr>messages := messages s
                      @ [plainMessage (str ''user-'' @ decimal now) USER (str ''Yes, help me find a facility.''),
                         plainMessage (str ''bot-locating-'' @ decimal now) BOT (str ''Got it. Finding your location...'')],
                   locating := locating s
                      @ [\<lparr>locatingId = str ''bot-locating-'' @ decimal now, capturedLoading = c\<rparr>]\<rparr>
            else handleSendMessage c
                   (str ''My browser doesn't support geolocation, so I cannot share my location.'')
                   None False now s)
      else handleSendMessage c optionText None False now s)"
  by (simp add: handleOptionClick_def handleLocationRequest_def Let_def plainMessage_def)

text \<open>
  Two clicks on the second option of the follow-up question. Written with capitals, the
  option does not contain "find a facility", yet the click starts the facility lookup and
  submits nothing. Written as in the system prompt it contains the words, and the
  follow-up question is the latest question, yet in a browser without geolocation no
  position is requested: the fixed text about the browser is submitted.
\<close>

theorem option_click_counterexample:
  "\<not> jsincludes (str ''Help Me Find A Facility.'') (str ''find a facility'')
   \<and> locating (step (ClickOption 2 1 True 3) capitalsState)
       = [\<lparr>locatingId = str ''bot-locating-3'', capturedLoading = False\<rparr>]
   \<and> pending (step (ClickOption 2 1 True 3) capitalsState) = []
   \<and> jsincludes (str ''Help me find a facility.'') (str ''find a facility'')
   \<and> isLocationQuestion (messages followUpState)
   \<and> locating (step (ClickOption 2 1 False 3) followUpState) = []
   \<and> pending (step (ClickOption 2 1 False 3) followUpState)
       = [Streaming [TextPart (str ''My browser doesn't support geolocation, so I cannot share my location.'')] None]"
proof -
  have a: "\<not> jsincludes (str ''Help Me Find A Facility.'') (str ''find a facility'')"
    by (simp add: string_eval)
  have b: "jsincludes (toLowerCase (str ''Help Me Find A Facility.'')) (str ''find a facility'')"
    by (simp add: string_eval)
  have c: "jsincludes (str ''Help me find a facility.'') (str ''find a facility'')"
    by (simp add: string_eval)
  have q: "isLocationQuestion (messages capitalsState)"
    by (simp add: capitalsState_def followUpState_def followUpQuestion_def isLocationQuestion_def
        lastQuestion_def string_eval)
  have click1: "step (ClickOption 2 1 True 3) capitalsState
      = handleOptionClick False (str ''Help Me Find A Facility.'') True 3 capitalsState"
    by (simp add: clickOption_def optionEnabled_def Let_def capitalsState_def followUpState_def
        followUpQuestion_def greeting_def plainMessage_def)
  have click2: "step (ClickOption 2 1 False 3) followUpState
      = handleOptionClick False (str ''Help me find a facility.'') False 3 followUpState"
    by (simp add: clickOption_def optionEnabled_def Let_def followUpState_def
        followUpQuestion_def greeting_def plainMessage_def)
  have e: "locating (handleOptionClick False (str ''Help Me Find A Facility.'') True 3 capitalsState)
      = [\<lparr>locatingId = str ''bot-locating-3'', capturedLoading = False\<rparr>]
    \<and> pending (handleOptionClick False (str ''Help Me Find A Facility.'') True 3 capitalsState) = []"
    using b q
    by (simp add: handleOptionClick_unfold decimal_3 capitalsState_def followUpState_def str_def)
  have nonblank: "trim (str ''My browser doesn't support geolocation, so I cannot share my location.'') \<noteq> []"
    by (simp add: string_eval)
  have g: "locating (handleOptionClick False (str ''Help me find a facility.'') False 3 followUpState) = []
    \<and> pending (handleOptionClick False (str ''Help me find a facility.'') False 3 followUpState)
       = [Streaming [TextPart (str ''My browser doesn't support geolocation, so I cannot share my location.'')] None]"
    using facility_option_lower followUp_isLocationQuestion nonblank
    by (simp add: handleOptionClick_unfold handleSendMessage_def callStream_def
        streamResponse_begin_def followUpState_def Let_def)
  from a c e g click1 click2 followUp_isLocationQuestion show ?thesis by simp
qed

text \<open>
  C8, amended. When the option text, in lower case, contains "find a facility" and the
  latest question of the store contains "find a nearby medical facility": if the browser
  has geolocation, the controller records the user's choice and the placeholder and
  requests the position, and submits nothing; if it has none, it submits the fixed text
  "My browser doesn't support geolocation, so I cannot share my location." as a visible
  message, not the option text. In every other case the option text is submitted as a
  free-text submission is.
\<close>

theorem handleOptionClick_cases:
  "handleOptionClick c optionText geo now s =
     (if jsincludes (toLowerCase optionText) (str ''find a facility'')
         \<and> (case lastQuestion (messages s) of
               None \<Rightarrow> False
             | Some q \<Rightarrow> jsincludes (msg_text q) (str ''find a nearby medical facility''))
      then (if geo
            then s\<lparr>messages := messages s
                      @ [plainMessage (str ''user-'' @ decimal now) USER (str ''Yes, help me find a facility.''),
                         plainMessage (str ''bot-locating-'' @ decimal now) BOT (str ''Got it. Finding your location...'')],
                   locating := locating s
                      @ [\<lparr>locatingId = str ''bot-locating-'' @ decimal now, capturedLoading = c\<rparr>]\<rparr>
            else handleSendMessage c
                   (str ''My browser doesn't support geolocation, so I cannot share my location.'')
                   None False now s)
      else handleSendMessage c optionText None False now s)"
  unfolding handleOptionClick_unfold isLocationQuestion_def ..

subsection \<open>The facility lookup\<close>

text \<open>
  C10. When an option starts the facility lookup (its text in lower case contains "find a
  facility", the latest question is the follow-up question) and the browser has
  geolocation, the store gains the user message "Yes, help me find a facility.", whatever
  the text of the option, and the assistant placeholder "Got it. Finding your
  location...", in this order; the position is then awaited, its result has not arrived,
  and nothing is sent to the model.
\<close>

theorem facility_lookup_messages:
  assumes "jsincludes (toLowerCase optionText) (str ''find a facility'')"
    and "isLocationQuestion (messages s)"
  shows "messages (handleOptionClick c optionText True now s) =
       messages s @ [plainMessage (str ''user-'' @ decimal now) USER (str ''Yes, help me find a facility.''),
                     plainMessage (str ''bot-locating-'' @ decimal now) BOT (str ''Got it. Finding your location...'')]
     \<and> locating (handleOptionClick c optionText True now s) =
       locating s @ [\<lparr>locatingId = str ''bot-locating-'' @ decimal now, capturedLoading = c\<rparr>]
     \<and> pending (handleOptionClick c optionText True now s) = pending s"
  using assms
  by (simp add: handleOptionClick_def handleLocationRequest_def Let_def plainMessage_def)

theorem facility_lookup_witness:
  "jsincludes (toLowerCase (str ''Help me find a facility.'')) (str ''find a facility'')
   \<and> isLocationQuestion (messages followUpState)
   \<and> messages (handleOptionClick False (str ''Help me find a facility.'') True 3 followUpState)
     = messages followUpState
       @ [plainMessage (str ''user-'' @ decimal 3) USER (str ''Yes, help me find a facility.''),
          plainMessage (str ''bot-locating-'' @ decimal 3) BOT (str ''Got it. Finding your location...'')]"
proof -
  from facility_lookup_messages [OF facility_option_lower followUp_isLocationQuestion, of False 3]
    facility_option_lower followUp_isLocationQuestion
  show ?thesis by simp
qed

text \<open>
  C9. In every state the application reaches, when the geolocation request \<open>k\<close> fails
  with the message \<open>message\<close>: the store is the old store without the placeholder of the
  request, so nothing is appended and no message carries the placeholder's id when the
  answer of the assistant is appended later; and a request is sent to the model whose only
  part is the prompt built around the error's message.
\<close>

theorem position_error_hidden_prompt:
  assumes "s = run evs initial" and "k < length (locating s)"
  shows "messages (step (PositionFailed k message now) s)
       = filter (\<lambda>m. msg_id m \<noteq> locatingId (locating s ! k)) (messages s)
     \<and> list_all (\<lambda>m. msg_id m \<noteq> locatingId (locating s ! k))
         (messages (step (PositionFailed k message now) s))
     \<and> pending (step (PositionFailed k message now) s)
       = pending s @ [Streaming [TextPart (errorPrompt message)] None]
     \<and> (\<exists>a b. errorPrompt message = a @ message @ b)"
proof -
  have snd: "sound s" using assms(1) sound_run [OF sound_initial] by simp
  from assms(2) have mem: "locating s ! k \<in> set (locating s)" by simp
  with snd have cap: "\<not> capturedLoading (locating s ! k)" by (auto simp: sound_def)
  from snd assms(2) have chat: "chat s" by (auto simp: sound_def)
  have ex: "\<exists>a b. errorPrompt message = a @ message @ b"
    unfolding errorPrompt_def by blast
  from assms(2) cap chat errorPrompt_nonblank [of message] ex show ?thesis
    by (simp add: positionCallback_def handleSendMessage_def callStream_def
        streamResponse_begin_def Let_def list_all_iff)
qed

theorem position_error_witness:
  "0 < length (locating locatingState)
   \<and> messages (step (PositionFailed 0 (str ''User denied Geolocation'') 4) locatingState)
     = [greeting, plainMessage (str ''user-1'') USER (str ''hi''), followUpQuestion,
        plainMessage (str ''user-3'') USER (str ''Yes, help me find a facility.'')]
   \<and> pending (step (PositionFailed 0 (str ''User denied Geolocation'') 4) locatingState)
     = [Streaming [TextPart (errorPrompt (str ''User denied Geolocation''))] None]"
proof -
  have h: "0 < length (locating locatingState)" by (simp add: locatingState_def)
  have f: "filter (\<lambda>m. msg_id m \<noteq> locatingId (locating locatingState ! 0)) (messages locatingState)
     = [greeting, plainMessage (str ''user-1'') USER (str ''hi''), followUpQuestion,
        plainMessage (str ''user-3'') USER (str ''Yes, help me find a facility.'')]"
    by (simp add: locatingState_def greeting_def plainMessage_def followUpQuestion_def str_def)
  have p: "pending locatingState = []" by (simp add: locatingState_def)
  from position_error_hidden_prompt [OF locating_reached h, of "str ''User denied Geolocation''" 4]
    h f p show ?thesis by simp
qed

end
